theory Spec2Isabelle
  imports Complex_Main "HOL-Library.Word" "HOL-Library.AList" "HOL-Library.Multiset"
begin

unbundle bit_operations_syntax

section \<open>Host data: strings and numbers\<close>

text \<open>
  The scripts run on a JavaScript host. A host string is a sequence of UTF-16 code
  units (\<open>charCodeAt\<close> reads one unit, \<open>length\<close> counts units), so it is modelled as
  a list of naturals; \<open>js\<close> embeds an ASCII literal. Host numbers that carry
  coordinates are modelled as exact rationals.
\<close>

type_synonym jsstring = "nat list"

definition js :: "string \<Rightarrow> jsstring" where
  "js s = map of_char s"

section \<open>Host library: \<open>Array.prototype.sort\<close>\<close>

text \<open>
  The scripts sort with the host's \<open>Array.prototype.sort\<close> and a comparison function.
  The host guarantees a sorted permutation only for a consistent comparison function
  (its sign is antisymmetric and \<open>\<le>\<close> is transitive on the elements sorted); for any
  other function the order is implementation-defined. The functions below that sort
  take the host's sort as a parameter \<open>srt\<close>; \<open>host_sort\<close> states what the host
  guarantees, and \<open>insertion_sort\<close> is one sort that meets it, used to run the
  functions on concrete inputs.
\<close>

type_synonym 'a comparator = "'a \<Rightarrow> 'a \<Rightarrow> rat"

definition consistent_on :: "'a comparator \<Rightarrow> 'a set \<Rightarrow> bool" where
  "consistent_on cmp S =
     (\<forall>a \<in> S. \<forall>b \<in> S.
        (cmp a b < 0 \<longleftrightarrow> 0 < cmp b a) \<and>
        (\<forall>c \<in> S. cmp a b \<le> 0 \<and> cmp b c \<le> 0 \<longrightarrow> cmp a c \<le> 0))"

definition host_sort :: "('a comparator \<Rightarrow> 'a list \<Rightarrow> 'a list) \<Rightarrow> bool" where
  "host_sort srt =
     (\<forall>cmp xs.
        mset (srt cmp xs) = mset xs \<and>
        (consistent_on cmp (set xs) \<longrightarrow> sorted_wrt (\<lambda>a b. cmp a b \<le> 0) (srt cmp xs)))"

fun insert_by :: "'a comparator \<Rightarrow> 'a \<Rightarrow> 'a list \<Rightarrow> 'a list" where
  "insert_by cmp x [] = [x]"
| "insert_by cmp x (y # ys) =
     (if cmp x y < 0 then x # y # ys else y # insert_by cmp x ys)"

fun insertion_sort :: "'a comparator \<Rightarrow> 'a list \<Rightarrow> 'a list" where
  "insertion_sort cmp [] = []"
| "insertion_sort cmp (x # xs) = insert_by cmp x (insertion_sort cmp xs)"

section \<open>Host library: values, number rendering, 32-bit integers\<close>

text \<open>
  A host value as far as the functions below meet one. \<open>truthy\<close> is the test of \<open>if\<close>,
  \<open>&&\<close> and \<open>||\<close>; \<open>jsToString\<close> is the conversion applied by string concatenation.
\<close>

datatype jsval = JUndefined | JNull | JBool bool | JNum int | JStr jsstring

definition digitChar :: "nat \<Rightarrow> nat" where
  "digitChar d = (if d < 10 then 48 + d else 87 + d)"

text \<open>Decimal and lower-case hexadecimal rendering of a natural number.\<close>

fun dec :: "nat \<Rightarrow> jsstring" where
  "dec n = (if n < 10 then [digitChar n] else dec (n div 10) @ [digitChar (n mod 10)])"

fun hex :: "nat \<Rightarrow> jsstring" where
  "hex n = (if n < 16 then [digitChar n] else hex (n div 16) @ [digitChar (n mod 16)])"

declare dec.simps [simp del] hex.simps [simp del]

text \<open>The number a string of decimal digits denotes.\<close>

definition undec :: "jsstring \<Rightarrow> nat" where
  "undec s = foldl (\<lambda>a u. 10 * a + (u - 48)) 0 s"

text \<open>
  The string of an integral number (below \<open>10^21\<close> in magnitude, where the host
  switches to exponent notation).
\<close>

definition numberToString :: "int \<Rightarrow> jsstring" where
  "numberToString i = (if i < 0 then 45 # dec (nat (- i)) else dec (nat i))"

fun truthy :: "jsval \<Rightarrow> bool" where
  "truthy JUndefined = False"
| "truthy JNull = False"
| "truthy (JBool b) = b"
| "truthy (JNum n) = (n \<noteq> 0)"
| "truthy (JStr s) = (s \<noteq> [])"

fun jsToString :: "jsval \<Rightarrow> jsstring" where
  "jsToString JUndefined = js ''undefined''"
| "jsToString JNull = js ''null''"
| "jsToString (JBool b) = (if b then js ''true'' else js ''false'')"
| "jsToString (JNum n) = numberToString n"
| "jsToString (JStr s) = s"


text \<open>
  \<open>toLowerCase\<close> on the ASCII letters; the type names it is applied to are ASCII
  identifiers of the host application.
\<close>

definition toLowerCase :: "jsstring \<Rightarrow> jsstring" where
  "toLowerCase s = map (\<lambda>u. if 65 \<le> u \<and> u \<le> 90 then u + 32 else u) s"


section \<open>Integrity checker (\<open>IntegrityChecker\<close>)\<close>

record rect =
  b_left :: rat
  b_top :: rat
  b_right :: rat
  b_bottom :: rat

record element =
  elem_id :: jsstring
  elem_type :: jsstring
  bounds :: "rect option"

subsection \<open>\<open>checkIdUniqueness\<close>\<close>

record duplicate =
  dup_id :: jsstring
  indices :: "nat list"

record idCheck =
  unique :: bool
  duplicates :: "duplicate list"
  totalIds :: nat

text \<open>
  The object \<open>ids\<close> maps an id to the index stored for it; it is kept as an
  association list, one pair per own key, so that \<open>Object.keys(ids).length\<close> is its
  length. The test \<open>if (ids[id])\<close> is a truthiness test: it fails when the key is
  absent and also when the stored index is \<open>0\<close>.
\<close>

definition truthy_index :: "(jsstring \<times> nat) list \<Rightarrow> jsstring \<Rightarrow> nat option" where
  "truthy_index ids k =
     (case map_of ids k of
        None \<Rightarrow> None
      | Some v \<Rightarrow> (if v = 0 then None else Some v))"

fun checkIdUniqueness_loop ::
  "element list \<Rightarrow> nat \<Rightarrow> (jsstring \<times> nat) list \<Rightarrow> duplicate list
     \<Rightarrow> (jsstring \<times> nat) list \<times> duplicate list" where
  "checkIdUniqueness_loop [] i ids dups = (ids, dups)"
| "checkIdUniqueness_loop (e # es) i ids dups =
     (case truthy_index ids (elem_id e) of
        Some v \<Rightarrow>
          checkIdUniqueness_loop es (Suc i) ids
            (dups @ [\<lparr>dup_id = elem_id e, indices = [v, i]\<rparr>])
      | None \<Rightarrow>
          checkIdUniqueness_loop es (Suc i) (AList.update (elem_id e) i ids) dups)"

definition checkIdUniqueness :: "element list \<Rightarrow> idCheck" where
  "checkIdUniqueness elements =
     (case checkIdUniqueness_loop elements 0 [] [] of
        (ids, dups) \<Rightarrow>
          \<lparr>unique = (length dups = 0), duplicates = dups, totalIds = length ids\<rparr>)"

subsection \<open>\<open>checkBounds\<close>\<close>

record outOfBounds_entry =
  oob_elementId :: jsstring
  oob_elementType :: jsstring
  oob_bounds :: rect
  oob_reason :: jsstring

record partiallyVisible_entry =
  pv_elementId :: jsstring
  pv_elementType :: jsstring
  pv_bounds :: rect

record artboardSize =
  ab_width :: rat
  ab_height :: rat

record boundsCheck =
  valid :: bool
  outOfBounds :: "outOfBounds_entry list"
  partiallyVisible :: "partiallyVisible_entry list"
  fullyVisible :: nat
  artboardSize :: artboardSize

definition margin :: rat where
  "margin = 10"

text \<open>The reason string pushed with every out-of-bounds entry (six CJK code units).\<close>

definition reason_outside :: jsstring where
  "reason_outside = [0x5B8C, 0x5168, 0x5728, 0x753B, 0x677F, 0x5916]"

fun checkBounds_loop ::
  "rat \<Rightarrow> rat \<Rightarrow> element list
     \<Rightarrow> outOfBounds_entry list \<times> partiallyVisible_entry list \<times> nat
     \<Rightarrow> outOfBounds_entry list \<times> partiallyVisible_entry list \<times> nat" where
  "checkBounds_loop checkWidth checkHeight [] acc = acc"
| "checkBounds_loop checkWidth checkHeight (elem # rest) (oob, pv, fv) =
     (case bounds elem of
        None \<Rightarrow> checkBounds_loop checkWidth checkHeight rest (oob, pv, fv)
      | Some b \<Rightarrow>
          if b_right b < - margin \<or> b_left b > checkWidth + margin \<or>
             b_bottom b < - margin \<or> b_top b > checkHeight + margin
          then checkBounds_loop checkWidth checkHeight rest
                 (oob @ [\<lparr>oob_elementId = elem_id elem, oob_elementType = elem_type elem,
                           oob_bounds = b, oob_reason = reason_outside\<rparr>], pv, fv)
          else if b_left b < - margin \<or> b_right b > checkWidth + margin \<or>
                  b_top b < - margin \<or> b_bottom b > checkHeight + margin
          then checkBounds_loop checkWidth checkHeight rest
                 (oob, pv @ [\<lparr>pv_elementId = elem_id elem, pv_elementType = elem_type elem,
                               pv_bounds = b\<rparr>], fv)
          else checkBounds_loop checkWidth checkHeight rest (oob, pv, Suc fv))"

text \<open>
  \<open>artboardInfo\<close> is what \<open>CoordinateSystem.getArtboardInfo()\<close> returned, or \<open>None\<close>
  when no coordinate system is loaded; it overrides the document size passed in.
\<close>

definition checkBounds ::
  "artboardSize option \<Rightarrow> element list \<Rightarrow> rat \<Rightarrow> rat \<Rightarrow> boundsCheck" where
  "checkBounds artboardInfo elements docWidth docHeight =
     (let checkWidth = (case artboardInfo of Some a \<Rightarrow> ab_width a | None \<Rightarrow> docWidth);
          checkHeight = (case artboardInfo of Some a \<Rightarrow> ab_height a | None \<Rightarrow> docHeight)
      in case checkBounds_loop checkWidth checkHeight elements ([], [], 0) of
           (oob, pv, fv) \<Rightarrow>
             \<lparr>valid = (length oob = 0), outOfBounds = oob, partiallyVisible = pv,
              fullyVisible = fv,
              artboardSize = \<lparr>ab_width = checkWidth, ab_height = checkHeight\<rparr>\<rparr>)"

text \<open>
  The three classes in the words of the specification: an interval \<open>[a, b]\<close> lies
  entirely outside the band \<open>[lo, hi]\<close>, or one of its edges crosses the band.
\<close>

definition interval_outside :: "rat \<Rightarrow> rat \<Rightarrow> rat \<Rightarrow> rat \<Rightarrow> bool" where
  "interval_outside lo hi a b = (b < lo \<or> hi < a)"

definition edge_crosses :: "rat \<Rightarrow> rat \<Rightarrow> rat \<Rightarrow> rat \<Rightarrow> bool" where
  "edge_crosses lo hi a b = (a < lo \<or> hi < b)"

datatype visibility = OutOfBounds | PartiallyVisible | FullyVisible

definition classify :: "rat \<Rightarrow> rat \<Rightarrow> rect \<Rightarrow> visibility" where
  "classify W H b =
     (if interval_outside (- 10) (W + 10) (b_left b) (b_right b) \<or>
         interval_outside (- 10) (H + 10) (b_top b) (b_bottom b)
      then OutOfBounds
      else if edge_crosses (- 10) (W + 10) (b_left b) (b_right b) \<or>
              edge_crosses (- 10) (H + 10) (b_top b) (b_bottom b)
      then PartiallyVisible
      else FullyVisible)"


definition in_class :: "rat \<Rightarrow> rat \<Rightarrow> visibility \<Rightarrow> element \<Rightarrow> bool" where
  "in_class W H v e = (case bounds e of None \<Rightarrow> False | Some b \<Rightarrow> classify W H b = v)"

definition oob_entry_of :: "element \<Rightarrow> outOfBounds_entry" where
  "oob_entry_of e =
     \<lparr>oob_elementId = elem_id e, oob_elementType = elem_type e,
      oob_bounds = the (bounds e), oob_reason = reason_outside\<rparr>"

definition pv_entry_of :: "element \<Rightarrow> partiallyVisible_entry" where
  "pv_entry_of e =
     \<lparr>pv_elementId = elem_id e, pv_elementType = elem_type e, pv_bounds = the (bounds e)\<rparr>"

definition checkWidth_of :: "artboardSize option \<Rightarrow> rat \<Rightarrow> rat" where
  "checkWidth_of artboardInfo docWidth =
     (case artboardInfo of Some a \<Rightarrow> ab_width a | None \<Rightarrow> docWidth)"

definition checkHeight_of :: "artboardSize option \<Rightarrow> rat \<Rightarrow> rat" where
  "checkHeight_of artboardInfo docHeight =
     (case artboardInfo of Some a \<Rightarrow> ab_height a | None \<Rightarrow> docHeight)"

definition example_elements :: "element list" where
  "example_elements =
     [\<lparr>elem_id = js ''text_1'', elem_type = js ''text'',
       bounds = Some \<lparr>b_left = 100, b_top = 100, b_right = 300, b_bottom = 150\<rparr>\<rparr>,
      \<lparr>elem_id = js ''path_2'', elem_type = js ''path'',
       bounds = Some \<lparr>b_left = 1200, b_top = 0, b_right = 1300, b_bottom = 50\<rparr>\<rparr>,
      \<lparr>elem_id = js ''group_3'', elem_type = js ''group'', bounds = None\<rparr>,
      \<lparr>elem_id = js ''path_4'', elem_type = js ''path'',
       bounds = Some \<lparr>b_left = - 50, b_top = 10, b_right = 60, b_bottom = 80\<rparr>\<rparr>]"

section \<open>Pattern matcher (\<open>PatternMatcher\<close>)\<close>

record point =
  pt_x :: rat
  pt_y :: rat

record dims =
  d_width :: rat
  d_height :: rat

text \<open>
  A catalog entry. Only the properties the matcher reads are kept; \<open>maxSpacing\<close>,
  \<open>zoneHint\<close> and \<open>minCount\<close> are read by no function.
\<close>

record patternDef =
  pd_id :: jsstring
  pd_label :: jsstring
  pd_category :: jsstring
  pd_required :: "jsstring list"
  pd_optional :: "jsstring list"
  pd_repeatable :: bool
  pd_layout :: "jsstring option"
  pd_minFields :: "nat option"

definition GUEST_CARD :: patternDef where
  "GUEST_CARD =
     \<lparr>pd_id = js ''guest'', pd_label = [0x5609, 0x5BBE, 0x5361, 0x7247],
      pd_category = js ''person'',
      pd_required = [js ''avatar'', js ''name''],
      pd_optional = [js ''title'', js ''desc'', js ''company''],
      pd_repeatable = True, pd_layout = Some (js ''vertical''), pd_minFields = None\<rparr>"

definition TEAM_MEMBER :: patternDef where
  "TEAM_MEMBER =
     \<lparr>pd_id = js ''member'', pd_label = [0x56E2, 0x961F, 0x6210, 0x5458],
      pd_category = js ''person'',
      pd_required = [js ''name'', js ''title''],
      pd_optional = [js ''desc'', js ''phone'', js ''email''],
      pd_repeatable = True, pd_layout = None, pd_minFields = None\<rparr>"

definition TESTIMONIAL :: patternDef where
  "TESTIMONIAL =
     \<lparr>pd_id = js ''testimonial'', pd_label = [0x7528, 0x6237, 0x8BC4, 0x4EF7],
      pd_category = js ''person'',
      pd_required = [js ''text'', js ''name''],
      pd_optional = [js ''avatar'', js ''title'', js ''company''],
      pd_repeatable = True, pd_layout = None, pd_minFields = None\<rparr>"

definition EVENT_HEADER :: patternDef where
  "EVENT_HEADER =
     \<lparr>pd_id = js ''header'', pd_label = [0x6D3B, 0x52A8, 0x5934, 0x90E8],
      pd_category = js ''event'',
      pd_required = [js ''event_title''],
      pd_optional = [js ''date'', js ''slogan'', js ''logo''],
      pd_repeatable = False, pd_layout = None, pd_minFields = None\<rparr>"

definition AGENDA_ITEM :: patternDef where
  "AGENDA_ITEM =
     \<lparr>pd_id = js ''agenda'', pd_label = [0x8BAE, 0x7A0B, 0x9879],
      pd_category = js ''event'',
      pd_required = [js ''time'', js ''text''],
      pd_optional = [js ''name'', js ''title''],
      pd_repeatable = True, pd_layout = Some (js ''horizontal''), pd_minFields = None\<rparr>"

definition TIME_LOCATION :: patternDef where
  "TIME_LOCATION =
     \<lparr>pd_id = js ''schedule'', pd_label = [0x65F6, 0x95F4, 0x5730, 0x70B9],
      pd_category = js ''event'',
      pd_required = [js ''date''],
      pd_optional = [js ''time'', js ''address'', js ''qrcode''],
      pd_repeatable = False, pd_layout = None, pd_minFields = None\<rparr>"

definition PRICE_CARD :: patternDef where
  "PRICE_CARD =
     \<lparr>pd_id = js ''price'', pd_label = [0x4EF7, 0x683C, 0x5361, 0x7247],
      pd_category = js ''product'',
      pd_required = [js ''price''],
      pd_optional = [js ''text'', js ''desc'', js ''percent''],
      pd_repeatable = True, pd_layout = None, pd_minFields = None\<rparr>"

definition FEATURE_ITEM :: patternDef where
  "FEATURE_ITEM =
     \<lparr>pd_id = js ''feature'', pd_label = [0x7279, 0x6027, 0x9879],
      pd_category = js ''product'',
      pd_required = [js ''text''],
      pd_optional = [js ''icon'', js ''desc''],
      pd_repeatable = True, pd_layout = Some (js ''horizontal''), pd_minFields = None\<rparr>"

definition PRODUCT_CARD :: patternDef where
  "PRODUCT_CARD =
     \<lparr>pd_id = js ''product'', pd_label = [0x4EA7, 0x54C1, 0x5361, 0x7247],
      pd_category = js ''product'',
      pd_required = [js ''photo'', js ''text''],
      pd_optional = [js ''price'', js ''desc''],
      pd_repeatable = True, pd_layout = None, pd_minFields = None\<rparr>"

definition CONTACT_BLOCK :: patternDef where
  "CONTACT_BLOCK =
     \<lparr>pd_id = js ''contact'', pd_label = [0x8054, 0x7CFB, 0x4FE1, 0x606F],
      pd_category = js ''contact'',
      pd_required = [js ''phone''],
      pd_optional = [js ''email'', js ''address'', js ''wechat'', js ''qq'', js ''qrcode''],
      pd_repeatable = False, pd_layout = None, pd_minFields = Some 2\<rparr>"

definition SOCIAL_LINKS :: patternDef where
  "SOCIAL_LINKS =
     \<lparr>pd_id = js ''social'', pd_label = [0x793E, 0x4EA4, 0x5A92, 0x4F53],
      pd_category = js ''contact'',
      pd_required = [js ''icon''],
      pd_optional = [js ''text''],
      pd_repeatable = True, pd_layout = None, pd_minFields = None\<rparr>"

definition STAT_ITEM :: patternDef where
  "STAT_ITEM =
     \<lparr>pd_id = js ''stat'', pd_label = [0x6570, 0x636E, 0x7EDF, 0x8BA1],
      pd_category = js ''layout'',
      pd_required = [js ''number''],
      pd_optional = [js ''text'', js ''percent''],
      pd_repeatable = True, pd_layout = None, pd_minFields = None\<rparr>"

definition STEP_ITEM :: patternDef where
  "STEP_ITEM =
     \<lparr>pd_id = js ''step'', pd_label = [0x6B65, 0x9AA4, 0x9879],
      pd_category = js ''layout'',
      pd_required = [js ''number'', js ''text''],
      pd_optional = [js ''icon'', js ''desc''],
      pd_repeatable = True, pd_layout = Some (js ''horizontal''), pd_minFields = None\<rparr>"

definition LIST_ITEM :: patternDef where
  "LIST_ITEM =
     \<lparr>pd_id = js ''list'', pd_label = [0x5217, 0x8868, 0x9879],
      pd_category = js ''layout'',
      pd_required = [js ''text''],
      pd_optional = [js ''icon''],
      pd_repeatable = True, pd_layout = None, pd_minFields = None\<rparr>"

definition BRAND_SHOWCASE :: patternDef where
  "BRAND_SHOWCASE =
     \<lparr>pd_id = js ''brand'', pd_label = [0x54C1, 0x724C, 0x5C55, 0x793A],
      pd_category = js ''layout'',
      pd_required = [js ''logo''],
      pd_optional = [js ''text''],
      pd_repeatable = True, pd_layout = None, pd_minFields = None\<rparr>"

definition COMPOSITE_PATTERNS :: "patternDef list" where
  "COMPOSITE_PATTERNS =
     [GUEST_CARD, TEAM_MEMBER, TESTIMONIAL, EVENT_HEADER,
      AGENDA_ITEM, TIME_LOCATION, PRICE_CARD, FEATURE_ITEM,
      PRODUCT_CARD, CONTACT_BLOCK, SOCIAL_LINKS, STAT_ITEM,
      STEP_ITEM, LIST_ITEM, BRAND_SHOWCASE]"

text \<open>One record of the tag map built by \<open>extractTags\<close> for a tagged child.\<close>

record tagRecord =
  tr_elementId :: jsstring
  tr_type :: jsstring
  tr_value :: jsstring
  tr_position :: "point option"
  tr_size :: "dims option"

text \<open>
  The tag map \<open>childTags\<close> is an object from type-key to an array of records, kept as
  an association list. \<open>childTags[k]\<close> is truthy exactly when the key is present.
\<close>

type_synonym childTags = "(jsstring \<times> tagRecord list) list"

record groupElement =
  g_id :: jsstring
  g_path :: jsstring
  g_position :: point
  g_size :: "dims option"

text \<open>
  A match. \<open>pm_fields\<close> (the property \<open>fields\<close>) is an object, kept as an association list in insertion order;
  a field value is \<open>childTags[k][0]\<close>, which is \<open>undefined\<close> (\<open>None\<close>) for an empty
  array. \<open>matchPattern\<close> does not set \<open>repeatTotal\<close>, so it starts \<open>undefined\<close>.
\<close>

record patternMatch =
  patternId :: jsstring
  patternLabel :: jsstring
  groupId :: jsstring
  groupPath :: jsstring
  position :: point
  pm_size :: "dims option"
  pm_fields :: "(jsstring \<times> tagRecord option) list"
  repeatable :: bool
  repeatIndex :: nat
  repeatTotal :: "nat option"

subsection \<open>\<open>matchPattern\<close>\<close>

fun hasAllRequired :: "childTags \<Rightarrow> jsstring list \<Rightarrow> bool" where
  "hasAllRequired childTags [] = True"
| "hasAllRequired childTags (reqField # rest) =
     (case map_of childTags reqField of
        None \<Rightarrow> False
      | Some recs \<Rightarrow> if length recs = 0 then False else hasAllRequired childTags rest)"

fun optionalCount :: "childTags \<Rightarrow> jsstring list \<Rightarrow> nat" where
  "optionalCount childTags [] = 0"
| "optionalCount childTags (optField # rest) =
     (case map_of childTags optField of
        None \<Rightarrow> optionalCount childTags rest
      | Some recs \<Rightarrow> Suc (optionalCount childTags rest))"

text \<open>
  \<open>childTags[k][0]\<close>. It is read only where \<open>childTags[k]\<close> is known to be present,
  so the read never throws.
\<close>

definition firstRecord :: "childTags \<Rightarrow> jsstring \<Rightarrow> tagRecord option" where
  "firstRecord childTags k =
     (case map_of childTags k of
        Some (r # rs) \<Rightarrow> Some r
      | _ \<Rightarrow> None)"

fun addRequired ::
  "childTags \<Rightarrow> jsstring list \<Rightarrow> (jsstring \<times> tagRecord option) list
     \<Rightarrow> (jsstring \<times> tagRecord option) list" where
  "addRequired childTags [] flds = flds"
| "addRequired childTags (reqField # rest) flds =
     addRequired childTags rest (AList.update reqField (firstRecord childTags reqField) flds)"

fun addOptional ::
  "childTags \<Rightarrow> jsstring list \<Rightarrow> (jsstring \<times> tagRecord option) list
     \<Rightarrow> (jsstring \<times> tagRecord option) list" where
  "addOptional childTags [] flds = flds"
| "addOptional childTags (optField # rest) flds =
     (case map_of childTags optField of
        None \<Rightarrow> addOptional childTags rest flds
      | Some recs \<Rightarrow>
          addOptional childTags rest
            (AList.update optField (firstRecord childTags optField) flds))"

text \<open>\<open>pattern.minFields && (required.length + optionalCount) < pattern.minFields\<close>.\<close>

definition belowMinFields :: "patternDef \<Rightarrow> nat \<Rightarrow> bool" where
  "belowMinFields pattern optCount =
     (case pd_minFields pattern of
        None \<Rightarrow> False
      | Some m \<Rightarrow> m \<noteq> 0 \<and> length (pd_required pattern) + optCount < m)"

fun matchPattern :: "patternDef list \<Rightarrow> groupElement \<Rightarrow> childTags \<Rightarrow> patternMatch option" where
  "matchPattern [] grp childTags = None"
| "matchPattern (pattern # rest) grp childTags =
     (if \<not> hasAllRequired childTags (pd_required pattern)
      then matchPattern rest grp childTags
      else if belowMinFields pattern (optionalCount childTags (pd_optional pattern))
      then matchPattern rest grp childTags
      else Some
        \<lparr>patternId = pd_id pattern, patternLabel = pd_label pattern,
         groupId = g_id grp, groupPath = g_path grp,
         position = g_position grp, pm_size = g_size grp,
         pm_fields = addOptional childTags (pd_optional pattern)
                    (addRequired childTags (pd_required pattern) []),
         repeatable = pd_repeatable pattern, repeatIndex = 0, repeatTotal = None\<rparr>)"

text \<open>
  The condition under which a definition matches, in the words of the
  specification.
\<close>

definition definitionMatches :: "childTags \<Rightarrow> patternDef \<Rightarrow> bool" where
  "definitionMatches childTags d =
     ((\<forall>k \<in> set (pd_required d). \<exists>r rs. map_of childTags k = Some (r # rs)) \<and>
      (\<forall>m. pd_minFields d = Some m \<and> m \<noteq> 0 \<longrightarrow>
         m \<le> length (pd_required d) +
             length (filter (\<lambda>k. map_of childTags k \<noteq> None) (pd_optional d))))"

subsection \<open>\<open>detectRepeatablePatterns\<close>\<close>

text \<open>The comparison function handed to the sort.\<close>

definition comparePosition :: "patternMatch comparator" where
  "comparePosition a b =
     (let yDiff = pt_y (position a) - pt_y (position b)
      in if \<bar>yDiff\<bar> > 20 then yDiff else pt_x (position a) - pt_x (position b))"

text \<open>
  The matches are objects shared between \<open>patterns\<close> and the arrays in \<open>byType\<close>, so a
  group is kept as the list of the indices of its matches in \<open>patterns\<close>, and writing
  \<open>repeatIndex\<close> through a group updates \<open>patterns\<close> at that index. \<open>byType\<close> lists its
  keys in the order of first insertion.
\<close>

fun groupByType ::
  "patternMatch list \<Rightarrow> nat \<Rightarrow> (jsstring \<times> nat list) list \<Rightarrow> (jsstring \<times> nat list) list" where
  "groupByType [] i byType = byType"
| "groupByType (p # ps) i byType =
     groupByType ps (Suc i)
       (AList.update (patternId p)
          ((case map_of byType (patternId p) of None \<Rightarrow> [] | Some g \<Rightarrow> g) @ [i]) byType)"

fun assignIndices :: "nat list \<Rightarrow> nat \<Rightarrow> nat \<Rightarrow> patternMatch list \<Rightarrow> patternMatch list" where
  "assignIndices [] i n patterns = patterns"
| "assignIndices (j # rest) i n patterns =
     assignIndices rest (Suc i) n
       (patterns[j := (patterns ! j)\<lparr>repeatIndex := i, repeatTotal := Some n\<rparr>])"

text \<open>
  The comparison function reads only \<open>position\<close>, which the loop never writes; it is
  taken from the list \<open>patterns0\<close> the function was called with.
\<close>

fun assignGroups ::
  "(nat comparator \<Rightarrow> nat list \<Rightarrow> nat list) \<Rightarrow> patternMatch list
     \<Rightarrow> (jsstring \<times> nat list) list \<Rightarrow> patternMatch list \<Rightarrow> patternMatch list" where
  "assignGroups srt patterns0 [] patterns = patterns"
| "assignGroups srt patterns0 ((ty, grp) # rest) patterns =
     assignGroups srt patterns0 rest
       (if length grp > 1
        then assignIndices
               (srt (\<lambda>a b. comparePosition (patterns0 ! a) (patterns0 ! b)) grp)
               0 (length grp) patterns
        else patterns)"

definition detectRepeatablePatterns ::
  "(nat comparator \<Rightarrow> nat list \<Rightarrow> nat list) \<Rightarrow> patternMatch list \<Rightarrow> patternMatch list" where
  "detectRepeatablePatterns srt patterns =
     assignGroups srt patterns (groupByType patterns 0 []) patterns"


definition sameBucket :: "patternMatch \<Rightarrow> patternMatch \<Rightarrow> bool" where
  "sameBucket a b = (\<bar>pt_y (position a) - pt_y (position b)\<bar> \<le> 20)"


text \<open>Example inputs.\<close>

definition mkMatch :: "jsstring \<Rightarrow> jsstring \<Rightarrow> rat \<Rightarrow> rat \<Rightarrow> patternMatch" where
  "mkMatch pid gid x y =
     \<lparr>patternId = pid, patternLabel = [], groupId = gid, groupPath = [],
      position = \<lparr>pt_x = x, pt_y = y\<rparr>, pm_size = None, pm_fields = [],
      repeatable = True, repeatIndex = 0, repeatTotal = None\<rparr>"

definition scenarioD :: "patternMatch list" where
  "scenarioD =
     [mkMatch (js ''guest'') (js ''g1'') 200 105,
      mkMatch (js ''guest'') (js ''g2'') 50 400,
      mkMatch (js ''guest'') (js ''g3'') 50 100]"

definition cyclicMatches :: "patternMatch list" where
  "cyclicMatches =
     [mkMatch (js ''guest'') (js ''gA'') 100 0,
      mkMatch (js ''guest'') (js ''gB'') 50 15,
      mkMatch (js ''guest'') (js ''gC'') 0 30]"

definition mkTag :: "jsstring \<Rightarrow> jsstring \<Rightarrow> jsstring \<Rightarrow> tagRecord" where
  "mkTag eid ty v =
     \<lparr>tr_elementId = eid, tr_type = ty, tr_value = v, tr_position = None, tr_size = None\<rparr>"

definition scenarioC_tags :: childTags where
  "scenarioC_tags =
     [(js ''avatar'', [mkTag (js ''img_1'') (js ''avatar'') (js ''photo.png'')]),
      (js ''name'', [mkTag (js ''text_2'') (js ''name'') [0x5F20, 0x4E09],
                     mkTag (js ''text_4'') (js ''name'') [0x674E, 0x56DB]]),
      (js ''title'', [mkTag (js ''text_3'') (js ''title'') (js ''CEO'')])]"

definition scenarioC_group :: groupElement where
  "scenarioC_group =
     \<lparr>g_id = js ''group_9'', g_path = js ''0/3'',
      g_position = \<lparr>pt_x = 50, pt_y = 100\<rparr>, g_size = None\<rparr>"

section \<open>Variable namer (\<open>VariableNamer\<close>)\<close>

text \<open>
  \<open>counters\<close> is an object from type-key to the next number, kept as an association
  list; \<open>reset\<close> empties it. Type-keys are assumed not to name a property that every
  object inherits (such as \<open>constructor\<close>).
\<close>

type_synonym counters = "(jsstring \<times> nat) list"

definition reset :: counters where
  "reset = []"

text \<open>\<open>generateId\<close> returns the id and the updated counters.\<close>

definition generateId :: "counters \<Rightarrow> jsval \<Rightarrow> jsval \<Rightarrow> jsval \<Rightarrow> jsstring \<times> counters" where
  "generateId counters patternName fieldType index =
     (if truthy patternName \<and> index \<noteq> JUndefined
      then (jsToString patternName @ js ''_'' @ jsToString index @ js ''.'' @
              jsToString fieldType, counters)
      else if truthy patternName
      then (jsToString patternName @ js ''.'' @ jsToString fieldType, counters)
      else
        let key = (if truthy fieldType then jsToString fieldType else js ''item'');
            n = (case map_of counters key of None \<Rightarrow> 0 | Some v \<Rightarrow> v);
            counters1 = AList.update key n counters;
            ident = key @ js ''_'' @ dec n
        in (ident, AList.update key (Suc n) counters1))"

text \<open>
  The standalone allocations of one detection pass: \<open>processElements\<close> resets the
  namer and calls \<open>generateId(null, key, null)\<close> once for every variable it detects,
  in element order.
\<close>

fun allocateStandalone :: "counters \<Rightarrow> jsval list \<Rightarrow> jsstring list" where
  "allocateStandalone counters [] = []"
| "allocateStandalone counters (fieldType # rest) =
     (case generateId counters JNull fieldType JNull of
        (ident, counters') \<Rightarrow> ident # allocateStandalone counters' rest)"

definition keyOf :: "jsval \<Rightarrow> jsstring" where
  "keyOf fieldType = (if truthy fieldType then jsToString fieldType else js ''item'')"

definition counterOf :: "counters \<Rightarrow> jsstring \<Rightarrow> nat" where
  "counterOf counters key = (case map_of counters key of None \<Rightarrow> 0 | Some v \<Rightarrow> v)"

section \<open>Identity generator (\<open>IdGenerator\<close>)\<close>
















section \<open>Host library: regular expressions\<close>

text \<open>
  The regular expressions of the detector use character classes, sequence,
  alternation and repetition only. A class is a list of inclusive ranges of code
  units. \<open>rx_test\<close> is \<open>RegExp.prototype.test\<close> for an expression without flags: some
  substring of the text matches. Matching is by derivatives.
\<close>

datatype rx = Cls "(nat \<times> nat) list" | Eps | Seq rx rx | Alt rx rx | Star rx

definition inClass :: "nat \<Rightarrow> (nat \<times> nat) list \<Rightarrow> bool" where
  "inClass c cs = list_ex (\<lambda>(lo, hi). lo \<le> c \<and> c \<le> hi) cs"

fun nullable :: "rx \<Rightarrow> bool" where
  "nullable (Cls cs) = False"
| "nullable Eps = True"
| "nullable (Seq r s) = (nullable r \<and> nullable s)"
| "nullable (Alt r s) = (nullable r \<or> nullable s)"
| "nullable (Star r) = True"

fun deriv :: "nat \<Rightarrow> rx \<Rightarrow> rx" where
  "deriv c (Cls cs) = (if inClass c cs then Eps else Cls [])"
| "deriv c Eps = Cls []"
| "deriv c (Seq r s) =
     (if nullable r then Alt (Seq (deriv c r) s) (deriv c s) else Seq (deriv c r) s)"
| "deriv c (Alt r s) = Alt (deriv c r) (deriv c s)"
| "deriv c (Star r) = Seq (deriv c r) (Star r)"

text \<open>Some prefix of the text matches; some substring of the text matches.\<close>

fun matchesPrefix :: "rx \<Rightarrow> jsstring \<Rightarrow> bool" where
  "matchesPrefix r [] = nullable r"
| "matchesPrefix r (c # cs) = (nullable r \<or> matchesPrefix (deriv c r) cs)"

fun rx_test :: "rx \<Rightarrow> jsstring \<Rightarrow> bool" where
  "rx_test r [] = nullable r"
| "rx_test r (c # cs) = (matchesPrefix r (c # cs) \<or> rx_test r cs)"

text \<open>A lower bound on the length of a match.\<close>

fun minLen :: "rx \<Rightarrow> nat" where
  "minLen (Cls cs) = 1"
| "minLen Eps = 0"
| "minLen (Seq r s) = minLen r + minLen s"
| "minLen (Alt r s) = min (minLen r) (minLen s)"
| "minLen (Star r) = 0"

text \<open>Literals, \<open>r+\<close>, \<open>r?\<close>, \<open>r{n}\<close>, \<open>r{1,2}\<close> and a list of alternatives.\<close>

fun lit :: "jsstring \<Rightarrow> rx" where
  "lit [] = Eps"
| "lit (c # cs) = Seq (Cls [(c, c)]) (lit cs)"

definition Plus :: "rx \<Rightarrow> rx" where
  "Plus r = Seq r (Star r)"

definition Opt :: "rx \<Rightarrow> rx" where
  "Opt r = Alt r Eps"

fun times :: "nat \<Rightarrow> rx \<Rightarrow> rx" where
  "times 0 r = Eps"
| "times (Suc n) r = Seq r (times n r)"

definition oneOrTwo :: "rx \<Rightarrow> rx" where
  "oneOrTwo r = Seq r (Opt r)"

fun anyOf :: "rx list \<Rightarrow> rx" where
  "anyOf [] = Cls []"
| "anyOf [r] = r"
| "anyOf (r # rs) = Alt r (anyOf rs)"

text \<open>The classes \<open>\d\<close>, \<open>\w\<close> and \<open>\s\<close> (white space and line terminators).\<close>

definition digitRanges :: "(nat \<times> nat) list" where
  "digitRanges = [(48, 57)]"

definition wordRanges :: "(nat \<times> nat) list" where
  "wordRanges = [(48, 57), (65, 90), (95, 95), (97, 122)]"

definition spaceRanges :: "(nat \<times> nat) list" where
  "spaceRanges =
     [(9, 13), (32, 32), (160, 160), (0x1680, 0x1680), (0x2000, 0x200A),
      (0x2028, 0x2029), (0x202F, 0x202F), (0x205F, 0x205F), (0x3000, 0x3000),
      (0xFEFF, 0xFEFF)]"

definition isSpace :: "nat \<Rightarrow> bool" where
  "isSpace c = inClass c spaceRanges"

text \<open>\<open>s.replace(/^\s+|\s+$/g, "")\<close> and \<open>s.replace(/\s+/g, "")\<close>.\<close>

definition trim :: "jsstring \<Rightarrow> jsstring" where
  "trim s = rev (dropWhile isSpace (rev (dropWhile isSpace s)))"

definition removeSpaces :: "jsstring \<Rightarrow> jsstring" where
  "removeSpaces s = filter (\<lambda>c. \<not> isSpace c) s"

text \<open>\<open>s.indexOf(k) >= 0\<close>.\<close>

fun contains :: "jsstring \<Rightarrow> jsstring \<Rightarrow> bool" where
  "contains [] k = (k = [])"
| "contains (c # cs) k = (take (length k) (c # cs) = k \<or> contains cs k)"

section \<open>Multi-tag detector (\<open>MultiTagDetector\<close>)\<close>

record varType =
  vt_key :: jsstring
  vt_category :: jsstring
  vt_label :: jsstring
  vt_priority :: nat

text \<open>The entries of \<open>VAR_TYPES\<close> that text detection refers to.\<close>

definition PERSON_NAME :: varType where
  "PERSON_NAME = \<lparr>vt_key = js ''name'', vt_category = js ''person'', vt_label = [0x4EBA, 0x540D], vt_priority = 1\<rparr>"

definition PERSON_TITLE :: varType where
  "PERSON_TITLE = \<lparr>vt_key = js ''title'', vt_category = js ''person'', vt_label = [0x804C, 0x4F4D], vt_priority = 2\<rparr>"

definition DATE :: varType where
  "DATE = \<lparr>vt_key = js ''date'', vt_category = js ''time'', vt_label = [0x65E5, 0x671F], vt_priority = 1\<rparr>"

definition TIME :: varType where
  "TIME = \<lparr>vt_key = js ''time'', vt_category = js ''time'', vt_label = [0x65F6, 0x95F4], vt_priority = 2\<rparr>"

definition EVENT_TITLE :: varType where
  "EVENT_TITLE = \<lparr>vt_key = js ''event_title'', vt_category = js ''event'', vt_label = [0x6D3B, 0x52A8, 0x6807, 0x9898], vt_priority = 1\<rparr>"

definition SLOGAN :: varType where
  "SLOGAN = \<lparr>vt_key = js ''slogan'', vt_category = js ''event'', vt_label = [0x53E3, 0x53F7, 0x6807, 0x8BED], vt_priority = 2\<rparr>"

definition PHONE :: varType where
  "PHONE = \<lparr>vt_key = js ''phone'', vt_category = js ''contact'', vt_label = [0x7535, 0x8BDD], vt_priority = 1\<rparr>"

definition EMAIL :: varType where
  "EMAIL = \<lparr>vt_key = js ''email'', vt_category = js ''contact'', vt_label = [0x90AE, 0x7BB1], vt_priority = 1\<rparr>"

definition ADDRESS :: varType where
  "ADDRESS = \<lparr>vt_key = js ''address'', vt_category = js ''contact'', vt_label = [0x5730, 0x5740], vt_priority = 2\<rparr>"

definition WECHAT :: varType where
  "WECHAT = \<lparr>vt_key = js ''wechat'', vt_category = js ''contact'', vt_label = [0x5FAE, 0x4FE1], vt_priority = 2\<rparr>"

definition PRICE :: varType where
  "PRICE = \<lparr>vt_key = js ''price'', vt_category = js ''number'', vt_label = [0x4EF7, 0x683C], vt_priority = 1\<rparr>"

definition PERCENT :: varType where
  "PERCENT = \<lparr>vt_key = js ''percent'', vt_category = js ''number'', vt_label = [0x767E, 0x5206, 0x6BD4], vt_priority = 2\<rparr>"

definition TEXT :: varType where
  "TEXT = \<lparr>vt_key = js ''text'', vt_category = js ''generic'', vt_label = [0x6587, 0x672C], vt_priority = 3\<rparr>"

text \<open>The precompiled expressions (\<open>compiledRegex\<close>).\<close>

definition rx_date :: rx where
  "rx_date =
     Seq (times 4 (Cls digitRanges))
       (Seq (Cls [(46, 46), (45, 45), (47, 47), (0x5E74, 0x5E74)])
          (Seq (oneOrTwo (Cls digitRanges))
             (Seq (Cls [(46, 46), (45, 45), (47, 47), (0x6708, 0x6708)])
                (oneOrTwo (Cls digitRanges)))))"

definition rx_time :: rx where
  "rx_time = Seq (oneOrTwo (Cls digitRanges)) (Seq (lit (js '':'')) (times 2 (Cls digitRanges)))"

definition rx_phone :: rx where
  "rx_phone = Seq (lit (js ''1'')) (Seq (Cls [(51, 57)]) (times 9 (Cls digitRanges)))"

definition rx_email :: rx where
  "rx_email =
     Seq (Plus (Cls (wordRanges @ [(46, 46), (45, 45)])))
       (Seq (lit (js ''@''))
          (Seq (Plus (Cls (wordRanges @ [(46, 46), (45, 45)])))
             (Seq (lit (js ''.'')) (Plus (Cls wordRanges)))))"

definition rx_price :: rx where
  "rx_price =
     Seq (Cls [(0xA5, 0xA5), (0xFFE5, 0xFFE5), (36, 36), (0x20AC, 0x20AC)])
       (Seq (Star (Cls spaceRanges)) (Plus (Cls (digitRanges @ [(44, 44)]))))"

definition rx_percent :: rx where
  "rx_percent =
     Seq (Plus (Cls digitRanges))
       (Seq (Opt (Seq (lit (js ''.'')) (Plus (Cls digitRanges))))
          (Seq (Star (Cls spaceRanges)) (lit (js ''%''))))"

definition titleKeywords :: "jsstring list" where
  "titleKeywords =
     [[0x521B, 0x59CB, 0x4EBA], js ''CEO'', js ''CTO'', js ''COO'', js ''CFO'',
      [0x603B, 0x88C1], [0x8463, 0x4E8B], [0x603B, 0x76D1], [0x7ECF, 0x7406],
      [0x4E3B, 0x4EFB], [0x6559, 0x6388], [0x535A, 0x58EB], [0x9662, 0x58EB],
      [0x4E13, 0x5BB6], [0x987E, 0x95EE]]"

definition rx_title :: rx where
  "rx_title = anyOf (map lit titleKeywords)"

definition rx_wechat :: rx where
  "rx_wechat =
     Seq (lit [0x5FAE, 0x4FE1])
       (Seq (Opt (Cls [(58, 58), (0xFF1A, 0xFF1A)]))
          (Seq (Star (Cls spaceRanges)) (Plus (Cls wordRanges))))"

definition addressKeywords :: "jsstring list" where
  "addressKeywords =
     [[0x7701], [0x5E02], [0x533A], [0x53BF], [0x8857, 0x9053], [0x8DEF], [0x53F7],
      [0x697C], [0x5BA4], [0x5927, 0x53A6], [0x5E7F, 0x573A]]"

definition rx_address :: rx where
  "rx_address = anyOf (map lit addressKeywords)"

subsection \<open>\<open>isChineseName\<close>, \<open>isEventTitle\<close>, \<open>isSlogan\<close>\<close>

definition isChineseName :: "jsstring \<Rightarrow> bool" where
  "isChineseName str =
     (if str = [] then False
      else let cleaned = removeSpaces str
           in if length cleaned < 2 \<or> length cleaned > 4 then False
              else list_all (\<lambda>code. \<not> (code < 0x4E00 \<or> code > 0x9FA5)) cleaned)"

definition eventKeywords :: "jsstring list" where
  "eventKeywords =
     [[0x5E74, 0x4F1A], [0x5927, 0x4F1A], [0x5CF0, 0x4F1A], [0x8BBA, 0x575B],
      [0x53D1, 0x5E03, 0x4F1A], [0x9881, 0x5956], [0x5178, 0x793C], [0x665A, 0x5BB4],
      [0x5E86, 0x5178], [0x4EEA, 0x5F0F], [0x76DB, 0x5178], [0x6D3B, 0x52A8],
      [0x4F1A, 0x8BAE], [0x5C55, 0x89C8], [0x5C55, 0x4F1A]]"

definition isEventTitle :: "jsstring \<Rightarrow> bool" where
  "isEventTitle str =
     (if str = [] \<or> length str < 4 then False
      else list_ex (contains str) eventKeywords)"

definition sloganPatterns :: "jsstring list" where
  "sloganPatterns =
     [[0x5468, 0x5E74], [0x4E4B, 0x591C], [0x8363, 0x8000], [0x540C, 0x884C],
      [0x5171, 0x8D62], [0x643A, 0x624B], [0x5171, 0x521B], [0x672A, 0x6765]]"

definition isSlogan :: "jsstring \<Rightarrow> bool" where
  "isSlogan str =
     (if str = [] \<or> length str < 4 \<or> length str > 30 then False
      else if list_ex (contains str) sloganPatterns then True
      else if contains str [0x7B2C] \<and> contains str [0x5C4A] then True
      else False)"

subsection \<open>\<open>detectText\<close>\<close>

record tag =
  tag_type :: jsstring
  varType :: varType
  confidence :: rat

definition push :: "bool \<Rightarrow> tag \<Rightarrow> tag list \<Rightarrow> tag list" where
  "push cond t tags = (if cond then tags @ [t] else tags)"

text \<open>
  The tags pushed for the trimmed text, in the order of the pushes: first the rules,
  then the generic fallback, which looks at the tags pushed so far.
\<close>

definition ruleTags :: "jsstring \<Rightarrow> tag list" where
  "ruleTags trimmed =
     (let tags = [];
          tags = push (rx_test rx_date trimmed)
                   \<lparr>tag_type = js ''date'', varType = DATE, confidence = 95 / 100\<rparr> tags;
          tags = push (rx_test rx_time trimmed)
                   \<lparr>tag_type = js ''time'', varType = TIME, confidence = 9 / 10\<rparr> tags;
          tags = push (rx_test rx_phone trimmed)
                   \<lparr>tag_type = js ''phone'', varType = PHONE, confidence = 95 / 100\<rparr> tags;
          tags = push (rx_test rx_email trimmed)
                   \<lparr>tag_type = js ''email'', varType = EMAIL, confidence = 95 / 100\<rparr> tags;
          tags = push (rx_test rx_price trimmed)
                   \<lparr>tag_type = js ''price'', varType = PRICE, confidence = 9 / 10\<rparr> tags;
          tags = push (rx_test rx_percent trimmed)
                   \<lparr>tag_type = js ''percent'', varType = PERCENT, confidence = 9 / 10\<rparr> tags;
          tags = push (rx_test rx_title trimmed)
                   \<lparr>tag_type = js ''title'', varType = PERSON_TITLE, confidence = 85 / 100\<rparr> tags;
          tags = push (rx_test rx_wechat trimmed)
                   \<lparr>tag_type = js ''wechat'', varType = WECHAT, confidence = 9 / 10\<rparr> tags;
          tags = push (rx_test rx_address trimmed)
                   \<lparr>tag_type = js ''address'', varType = ADDRESS, confidence = 75 / 100\<rparr> tags;
          tags = push (isChineseName trimmed)
                   \<lparr>tag_type = js ''name'', varType = PERSON_NAME, confidence = 85 / 100\<rparr> tags;
          tags = push (isEventTitle trimmed)
                   \<lparr>tag_type = js ''event_title'', varType = EVENT_TITLE,
                     confidence = 85 / 100\<rparr> tags;
          tags = push (isSlogan trimmed)
                   \<lparr>tag_type = js ''slogan'', varType = SLOGAN, confidence = 75 / 100\<rparr> tags
      in tags)"

definition pushedTags :: "jsstring \<Rightarrow> tag list" where
  "pushedTags trimmed =
     (let tags = ruleTags trimmed
      in push (length tags = 0 \<and> length trimmed \<ge> 2)
           \<lparr>tag_type = js ''text'', varType = TEXT,
             confidence = (if length trimmed > 50 then 4 / 10 else 5 / 10)\<rparr> tags)"

text \<open>
  The result object. The early return for missing or empty content carries only
  \<open>tags\<close> and \<open>primaryType\<close>; the other two properties are then absent (\<open>None\<close>).
  \<open>primaryType = None\<close> is \<open>null\<close>.
\<close>

record detection =
  tags :: "tag list"
  primaryType :: "varType option"
  allTypes :: "jsstring list option"
  maxConfidence :: "rat option"

definition byConfidence :: "tag comparator" where
  "byConfidence a b = confidence b - confidence a"

definition detectText ::
  "(tag comparator \<Rightarrow> tag list \<Rightarrow> tag list) \<Rightarrow> jsstring option \<Rightarrow> detection" where
  "detectText srt content =
     (case content of
        None \<Rightarrow> \<lparr>tags = [], primaryType = None, allTypes = None, maxConfidence = None\<rparr>
      | Some c \<Rightarrow>
          if length c = 0
          then \<lparr>tags = [], primaryType = None, allTypes = None, maxConfidence = None\<rparr>
          else
            let trimmed = trim c;
                sorted = srt byConfidence (pushedTags trimmed)
            in \<lparr>tags = sorted,
                primaryType = (if length sorted > 0 then Some (varType (hd sorted)) else None),
                allTypes = Some (map tag_type sorted),
                maxConfidence = Some (if length sorted > 0 then confidence (hd sorted) else 0)\<rparr>)"

text \<open>
  The exclusion keywords of the server's fallback classifier (\<open>notNamePatterns\<close> in
  \<open>detectTextType\<close>), which \<open>isChineseName\<close> does not consult.
\<close>

definition notNamePatterns :: "jsstring list" where
  "notNamePatterns =
     [[0x56E2, 0x961F], [0x8054, 0x76DF], [0x7CFB, 0x5217], [0x5355, 0x4F4D],
      [0x5BFC, 0x5E08], [0x6D41, 0x7A0B], [0x4EAE, 0x70B9], [0x4E3B, 0x6301],
      [0x5609, 0x5BBE], [0x603B, 0x90E8], [0x6D3B, 0x52A8], [0x6E38, 0x5B66],
      [0x589E, 0x957F], [0x7EC4, 0x7EC7]]"

definition hasExclusionKeyword :: "jsstring \<Rightarrow> bool" where
  "hasExclusionKeyword s = list_ex (contains s) notNamePatterns"

text \<open>Properties of a text and of a result, in the words of the claims.\<close>

definition cjkUnit :: "nat \<Rightarrow> bool" where
  "cjkUnit c = (0x4E00 \<le> c \<and> c \<le> 0x9FA5)"

definition cjkName :: "jsstring \<Rightarrow> bool" where
  "cjkName s = (2 \<le> length s \<and> length s \<le> 4 \<and> list_all cjkUnit s)"

definition nameTag :: tag where
  "nameTag = \<lparr>tag_type = js ''name'', varType = PERSON_NAME, confidence = 85 / 100\<rparr>"

definition addressTag :: tag where
  "addressTag = \<lparr>tag_type = js ''address'', varType = ADDRESS, confidence = 75 / 100\<rparr>"

definition hasTagType :: "jsstring \<Rightarrow> detection \<Rightarrow> bool" where
  "hasTagType ty d = list_ex (\<lambda>t. tag_type t = ty) (tags d)"

definition singleAddressUnits :: "nat list" where
  "singleAddressUnits = [0x7701, 0x5E02, 0x533A, 0x53BF, 0x8DEF, 0x53F7, 0x697C, 0x5BA4]"

section \<open>Batch replacer (\<open>BatchReplacer.runFromConfig\<close>)\<close>

text \<open>
  The open document as far as the replacer reads and writes it: a layer or page item
  has a type name, a name, contents (for text frames) and its page items, in
  document order. A layer is an item of type \<open>Layer\<close>. An item is referred to by its
  path: the index of its layer followed by the indices of the page items on the way
  down. A collection indexed outside its range yields \<open>undefined\<close>.
\<close>

datatype docItem =
  DocItem (di_typename: jsstring) (di_name: jsstring) (di_contents: jsstring)
    (di_pageItems: "docItem list")

text \<open>\<open>s.replace(/[\r\n]/g, "").substring(0, 30)\<close>.\<close>

definition cleanContent :: "jsstring \<Rightarrow> jsstring" where
  "cleanContent s = take 30 (filter (\<lambda>c. c \<noteq> 13 \<and> c \<noteq> 10) s)"

definition isMatch :: "jsstring \<Rightarrow> docItem \<Rightarrow> bool" where
  "isMatch targetContent item =
     (di_typename item = js ''TextFrame'' \<and>
      cleanContent (di_contents item) = cleanContent targetContent)"

text \<open>
  \<open>findTextByContent\<close> returns the item found, here its path below the container.
  \<open>findInItems\<close> is its loop over the container's page items from index \<open>k\<close> on.
\<close>

fun findTextByContent :: "docItem \<Rightarrow> jsstring \<Rightarrow> nat list option"
  and findInItems :: "docItem list \<Rightarrow> nat \<Rightarrow> jsstring \<Rightarrow> nat list option" where
  "findTextByContent (DocItem tn nm ct items) targetContent = findInItems items 0 targetContent"
| "findInItems [] k targetContent = None"
| "findInItems (item # rest) k targetContent =
     (if isMatch targetContent item then Some [k]
      else case (if di_pageItems item \<noteq> [] then findTextByContent item targetContent
                 else None) of
             Some p \<Rightarrow> Some (k # p)
           | None \<Rightarrow> findInItems rest (Suc k) targetContent)"

text \<open>The loop over \<open>doc.layers\<close> that stops at the first layer with a match.\<close>

fun findInLayers :: "docItem list \<Rightarrow> nat \<Rightarrow> jsstring \<Rightarrow> nat list option" where
  "findInLayers [] layerIdx targetContent = None"
| "findInLayers (layer # rest) layerIdx targetContent =
     (case findTextByContent layer targetContent of
        Some p \<Rightarrow> Some (layerIdx # p)
      | None \<Rightarrow> findInLayers rest (Suc layerIdx) targetContent)"

text \<open>\<open>s.split("/")\<close> and \<open>parseInt(s, 10)\<close>, where \<open>None\<close> is \<open>NaN\<close>.\<close>

fun splitOn :: "nat \<Rightarrow> jsstring \<Rightarrow> jsstring list" where
  "splitOn sep [] = [[]]"
| "splitOn sep (c # cs) =
     (if c = sep then [] # splitOn sep cs
      else case splitOn sep cs of
             [] \<Rightarrow> [[c]]
           | p # ps \<Rightarrow> (c # p) # ps)"

definition isDigit :: "nat \<Rightarrow> bool" where
  "isDigit c = (48 \<le> c \<and> c \<le> 57)"

definition parseInt10 :: "jsstring \<Rightarrow> int option" where
  "parseInt10 s =
     (let s1 = dropWhile isSpace s;
          neg = (case s1 of [] \<Rightarrow> False | c # r \<Rightarrow> c = 45);
          s2 = (case s1 of [] \<Rightarrow> [] | c # r \<Rightarrow> if c = 45 \<or> c = 43 then r else s1);
          ds = takeWhile isDigit s2
      in if ds = [] then None
         else Some (if neg then - int (undec ds) else int (undec ds)))"

text \<open>
  \<open>findByPath\<close>: the walk from a layer down the page items by the indices of the
  path string. The result is the path of the item reached, \<open>None\<close> for \<open>null\<close> or
  \<open>undefined\<close>.
\<close>

fun walkPath :: "docItem \<Rightarrow> jsstring list \<Rightarrow> nat list option" where
  "walkPath current [] = Some []"
| "walkPath current (part # parts) =
     (case parseInt10 part of
        None \<Rightarrow> None
      | Some idx \<Rightarrow>
          if int (length (di_pageItems current)) > idx
          then (if idx < 0 then None
                else case walkPath (di_pageItems current ! nat idx) parts of
                       None \<Rightarrow> None
                     | Some p \<Rightarrow> Some (nat idx # p))
          else None)"

definition findByPath :: "docItem list \<Rightarrow> jsstring \<Rightarrow> nat list option" where
  "findByPath layers pathStr =
     (if pathStr = [] then None
      else case splitOn 47 pathStr of
             [] \<Rightarrow> None
           | part0 # parts \<Rightarrow>
               (case parseInt10 part0 of
                  None \<Rightarrow> None
                | Some layerIndex \<Rightarrow>
                    if layerIndex \<ge> int (length layers) then None
                    else if layerIndex < 0 then None
                    else case walkPath (layers ! nat layerIndex) parts of
                           None \<Rightarrow> None
                         | Some p \<Rightarrow> Some (nat layerIndex # p)))"

text \<open>Reading and writing the item at a path.\<close>

fun itemIn :: "docItem \<Rightarrow> nat list \<Rightarrow> docItem option" where
  "itemIn item [] = Some item"
| "itemIn item (i # p) =
     (if i < length (di_pageItems item) then itemIn (di_pageItems item ! i) p else None)"

definition itemAt :: "docItem list \<Rightarrow> nat list \<Rightarrow> docItem option" where
  "itemAt layers path =
     (case path of
        [] \<Rightarrow> None
      | l # p \<Rightarrow> if l < length layers then itemIn (layers ! l) p else None)"

fun updateIn :: "nat list \<Rightarrow> (docItem \<Rightarrow> docItem) \<Rightarrow> docItem \<Rightarrow> docItem" where
  "updateIn [] f item = f item"
| "updateIn (i # p) f (DocItem tn nm ct items) =
     DocItem tn nm ct (if i < length items then items[i := updateIn p f (items ! i)] else items)"

definition updateAt :: "nat list \<Rightarrow> (docItem \<Rightarrow> docItem) \<Rightarrow> docItem list \<Rightarrow> docItem list" where
  "updateAt path f layers =
     (case path of
        [] \<Rightarrow> layers
      | l # p \<Rightarrow> if l < length layers then layers[l := updateIn p f (layers ! l)] else layers)"

definition setContents :: "jsstring \<Rightarrow> docItem \<Rightarrow> docItem" where
  "setContents newContent item =
     DocItem (di_typename item) (di_name item) newContent (di_pageItems item)"

text \<open>One entry of the array \<open>config.replacements\<close>, as the server writes it.\<close>

record replacement =
  varKey :: jsstring
  elementPath :: jsstring
  currentValue :: jsstring
  newValue :: jsstring
  rep_value :: jsstring

text \<open>
  The two stages of target resolution. The second component tells whether the item
  came out of \<open>findTextByContent\<close>, which then has written its \<open>MATCH\<close> line to the
  debug log.
\<close>

definition contentStage :: "docItem list \<Rightarrow> replacement \<Rightarrow> nat list option" where
  "contentStage layers rep =
     (if currentValue rep \<noteq> [] then findInLayers layers 0 (currentValue rep) else None)"

definition pathStage :: "docItem list \<Rightarrow> replacement \<Rightarrow> nat list option \<times> bool" where
  "pathStage layers rep =
     (if elementPath rep \<noteq> []
      then case findByPath layers (elementPath rep) of
             None \<Rightarrow> (None, False)
           | Some p \<Rightarrow>
               (case itemAt layers p of
                  None \<Rightarrow> (None, False)
                | Some item \<Rightarrow>
                    if di_typename item \<noteq> js ''TextFrame'' \<and> currentValue rep \<noteq> []
                    then (case findTextByContent item (currentValue rep) of
                            None \<Rightarrow> (None, False)
                          | Some q \<Rightarrow> (Some (p @ q), True))
                    else (Some p, False))
      else (None, False))"

definition resolveTarget :: "docItem list \<Rightarrow> replacement \<Rightarrow> nat list option \<times> bool" where
  "resolveTarget layers rep =
     (case contentStage layers rep of
        Some p \<Rightarrow> (Some p, True)
      | None \<Rightarrow> pathStage layers rep)"

text \<open>
  What a run leaves behind: the document, the replacer's own \<open>log\<close>, and the lines
  appended to the debug log file (without their time stamps).
\<close>

record logEntry =
  le_action :: jsstring
  le_elementId :: jsstring
  le_newValue :: jsstring

record runState =
  rs_layers :: "docItem list"
  rs_log :: "logEntry list"
  rs_debug :: "jsstring list"

definition debugLog :: "jsstring \<Rightarrow> runState \<Rightarrow> runState" where
  "debugLog msg st = st\<lparr>rs_debug := rs_debug st @ [msg]\<rparr>"

text \<open>
  \<open>replaceText\<close> on a text frame: the assignment to \<open>contents\<close> is taken to succeed.
  The value it returns is dropped by \<open>runFromConfig\<close>.
\<close>

definition replaceText :: "nat list \<Rightarrow> docItem \<Rightarrow> jsstring \<Rightarrow> runState \<Rightarrow> runState" where
  "replaceText path item newContent st =
     st\<lparr>rs_layers := updateAt path (setContents newContent) (rs_layers st),
        rs_log := rs_log st @
          [\<lparr>le_action = js ''replaceText'', le_elementId = di_name item,
            le_newValue = newContent\<rparr>]\<rparr>"

text \<open>\<open>rep.newValue || rep.value || ""\<close>.\<close>

definition chosenValue :: "replacement \<Rightarrow> jsstring" where
  "chosenValue rep =
     (if newValue rep \<noteq> [] then newValue rep
      else if rep_value rep \<noteq> [] then rep_value rep else [])"

text \<open>
  One round of the loop over the replacements. Replacing an image is an operation of
  the host application on the document and is a parameter.
\<close>

definition processReplacement ::
  "(nat list \<Rightarrow> jsstring \<Rightarrow> runState \<Rightarrow> runState) \<Rightarrow> nat \<Rightarrow> replacement \<Rightarrow> runState \<Rightarrow> runState" where
  "processReplacement replaceImage i rep st0 =
     (let newV = chosenValue rep;
          st1 = debugLog (js ''Rep '' @ dec i @ js '': varKey='' @ varKey rep @
                          js '', currentValue='' @ take 20 (currentValue rep)) st0;
          (target, matched) = resolveTarget (rs_layers st1) rep;
          st2 = (if matched
                 then debugLog (js ''findTextByContent: MATCH found, content='' @
                                take 20 (cleanContent (currentValue rep))) st1
                 else st1);
          found = (case target of
                     None \<Rightarrow> None
                   | Some p \<Rightarrow> map_option (\<lambda>item. (p, item)) (itemAt (rs_layers st2) p));
          st3 = debugLog (js ''Rep '' @ dec i @ js '': found item='' @
                          (case found of None \<Rightarrow> js ''null''
                           | Some (p, item) \<Rightarrow> di_typename item)) st2
      in case found of
           None \<Rightarrow> st3
         | Some (p, item) \<Rightarrow>
             if di_typename item = js ''TextFrame''
             then replaceText p item newV
                    (debugLog (js ''Replacing text: '' @ take 20 (di_contents item) @
                               js '' -> '' @ take 20 newV) st3)
             else if di_typename item = js ''PlacedItem'' \<or> di_typename item = js ''RasterItem''
             then replaceImage p newV st3
             else st3)"

fun processReplacements ::
  "(nat list \<Rightarrow> jsstring \<Rightarrow> runState \<Rightarrow> runState) \<Rightarrow> nat \<Rightarrow> replacement list
     \<Rightarrow> runState \<Rightarrow> runState" where
  "processReplacements replaceImage i [] st = st"
| "processReplacements replaceImage i (rep # reps) st =
     processReplacements replaceImage (Suc i) reps (processReplacement replaceImage i rep st)"

text \<open>
  The configuration read from the file (new format, with \<open>replacements\<close> an array),
  the files the export loop reports, and the value \<open>runFromConfig\<close> returns.
\<close>

record config =
  sourceFile :: jsstring
  outputDir :: jsstring
  outputName :: jsstring
  exportFormats :: "jsstring list option"
  replacements :: "replacement list"

datatype configFile = Missing | Unparsable jsstring | Parsed config

definition exportedFile :: "config \<Rightarrow> jsstring \<Rightarrow> jsstring list" where
  "exportedFile cfg fmt =
     (let format = toLowerCase fmt;
          outputName = (if outputName cfg \<noteq> [] then outputName cfg else js ''output'');
          base = outputDir cfg @ js ''/'' @ outputName
      in if format = js ''ai'' then [base @ js ''.ai'']
         else if format = js ''pdf'' then [base @ js ''.pdf'']
         else if format = js ''png'' then [base @ js ''.png'']
         else if format = js ''jpg'' \<or> format = js ''jpeg'' then [base @ js ''.jpg'']
         else [])"

definition exportedFiles :: "config \<Rightarrow> jsstring list" where
  "exportedFiles cfg =
     concat (map (exportedFile cfg)
       (case exportFormats cfg of None \<Rightarrow> [js ''pdf''] | Some fs \<Rightarrow> fs))"

record runResult =
  rr_success :: bool
  rr_error :: "jsstring option"
  rr_files :: "jsstring list option"

text \<open>
  \<open>runFromConfig\<close>: \<open>layers\<close> is the source document as opened. The state returned is
  the one after the loop over the replacements, before the text is outlined and the
  document is exported and closed.
\<close>

definition runFromConfig ::
  "(nat list \<Rightarrow> jsstring \<Rightarrow> runState \<Rightarrow> runState) \<Rightarrow> jsstring \<Rightarrow> configFile \<Rightarrow> bool
     \<Rightarrow> docItem list \<Rightarrow> runResult \<times> runState" where
  "runFromConfig replaceImage configPath file sourceExists layers =
     (let st0 = \<lparr>rs_layers = layers, rs_log = [], rs_debug = []\<rparr>
      in case file of
           Missing \<Rightarrow>
             (\<lparr>rr_success = False,
               rr_error = Some ([0x914D, 0x7F6E, 0x6587, 0x4EF6, 0x4E0D, 0x5B58, 0x5728, 0x003A, 0x0020] @ configPath),
               rr_files = None\<rparr>, st0)
         | Unparsable msg \<Rightarrow>
             (\<lparr>rr_success = False,
               rr_error = Some ([0x914D, 0x7F6E, 0x89E3, 0x6790, 0x9519, 0x8BEF, 0x003A, 0x0020] @ msg),
               rr_files = None\<rparr>, st0)
         | Parsed cfg \<Rightarrow>
             if \<not> sourceExists
             then (\<lparr>rr_success = False,
                    rr_error = Some ([0x6E90, 0x6587, 0x4EF6, 0x4E0D, 0x5B58, 0x5728, 0x003A, 0x0020] @ sourceFile cfg),
                    rr_files = None\<rparr>, st0)
             else
               let st1 = debugLog (js ''Processing '' @ dec (length (replacements cfg)) @
                                   js '' replacements'') st0;
                   st2 = processReplacements replaceImage 0 (replacements cfg) st1
               in (\<lparr>rr_success = True, rr_error = None,
                    rr_files = Some (exportedFiles cfg)\<rparr>, st2))"

text \<open>All items of the document in document order, each with its path.\<close>

fun descendants :: "docItem \<Rightarrow> (nat list \<times> docItem) list"
  and itemsFrom :: "docItem list \<Rightarrow> nat \<Rightarrow> (nat list \<times> docItem) list" where
  "descendants (DocItem tn nm ct items) = itemsFrom items 0"
| "itemsFrom [] k = []"
| "itemsFrom (item # rest) k =
     ([k], item) # map (\<lambda>(p, x). (k # p, x)) (descendants item) @ itemsFrom rest (Suc k)"

fun layerItems :: "docItem list \<Rightarrow> nat \<Rightarrow> (nat list \<times> docItem) list" where
  "layerItems [] l = []"
| "layerItems (layer # rest) l =
     map (\<lambda>(p, x). (l # p, x)) (descendants layer) @ layerItems rest (Suc l)"

text \<open>Example document and replacements (Scenario E).\<close>

definition exampleDoc :: "docItem list" where
  "exampleDoc =
     [DocItem (js ''Layer'') (js ''Layer 1'') []
        [DocItem (js ''GroupItem'') (js ''card'') []
           [DocItem (js ''PathItem'') (js ''bg'') [] [],
            DocItem (js ''TextFrame'') (js ''guest name'') [0x5F20, 0x4E09] []],
         DocItem (js ''TextFrame'') (js ''title'') (js ''CEO'') []]]"

definition exampleRep :: replacement where
  "exampleRep =
     \<lparr>varKey = js ''guest_0.name'', elementPath = js ''0/0/1'',
      currentValue = [0x5F20, 0x4E09], newValue = js ''Alice'', rep_value = []\<rparr>"

definition exampleRepLost :: replacement where
  "exampleRepLost =
     \<lparr>varKey = js ''guest_0.name'', elementPath = js ''0/5'',
      currentValue = [0x674E, 0x56DB], newValue = js ''Alice'', rep_value = []\<rparr>"

definition exampleConfig :: "replacement list \<Rightarrow> config" where
  "exampleConfig reps =
     \<lparr>sourceFile = js ''/tmp/card.ai'', outputDir = js ''/tmp/out'',
      outputName = js ''output_001'', exportFormats = Some [js ''ai''],
      replacements = reps\<rparr>"

definition noImages :: "nat list \<Rightarrow> jsstring \<Rightarrow> runState \<Rightarrow> runState" where
  "noImages path newPath st = st"

section \<open>Results: host sort\<close>

lemma consistent_on_subset: "consistent_on cmp S \<Longrightarrow> T \<subseteq> S \<Longrightarrow> consistent_on cmp T"
  unfolding consistent_on_def by (meson subsetD)

lemma consistent_on_trans:
  "consistent_on cmp S \<Longrightarrow> a \<in> S \<Longrightarrow> b \<in> S \<Longrightarrow> c \<in> S \<Longrightarrow> cmp a b \<le> 0 \<Longrightarrow> cmp b c \<le> 0 \<Longrightarrow> cmp a c \<le> 0"
  unfolding consistent_on_def by blast

lemma consistent_on_flip:
  "consistent_on cmp S \<Longrightarrow> a \<in> S \<Longrightarrow> b \<in> S \<Longrightarrow> \<not> cmp a b < 0 \<Longrightarrow> cmp b a \<le> 0"
  unfolding consistent_on_def by (meson not_le)

lemma mset_insert_by: "mset (insert_by cmp x ys) = add_mset x (mset ys)"
  by (induction ys) simp_all

lemma mset_insertion_sort: "mset (insertion_sort cmp xs) = mset xs"
  by (induction xs) (simp_all add: mset_insert_by)

lemma set_insert_by: "set (insert_by cmp x ys) = insert x (set ys)"
  by (induction ys) auto

lemma set_insertion_sort: "set (insertion_sort cmp xs) = set xs"
  by (induction xs) (simp_all add: set_insert_by)

lemma sorted_insert_by:
  assumes "consistent_on cmp (insert x (set ys))"
    and "sorted_wrt (\<lambda>a b. cmp a b \<le> 0) ys"
  shows "sorted_wrt (\<lambda>a b. cmp a b \<le> 0) (insert_by cmp x ys)"
  using assms
proof (induction ys)
  case Nil
  show ?case by simp
next
  case (Cons y ys)
  note con = Cons.prems(1)
  have sub: "consistent_on cmp (insert x (set ys))"
    by (rule consistent_on_subset [OF con]) auto
  have srt: "sorted_wrt (\<lambda>a b. cmp a b \<le> 0) ys" and le_y: "\<forall>z \<in> set ys. cmp y z \<le> 0"
    using Cons.prems(2) by simp_all
  show ?case
  proof (cases "cmp x y < 0")
    case True
    have "cmp x z \<le> 0" if "z \<in> set ys" for z
    proof -
      have "cmp x y \<le> 0" using True by simp
      moreover have "cmp y z \<le> 0" using le_y that by simp
      ultimately show ?thesis
        using consistent_on_trans [OF con, of x y z] that by simp
    qed
    with True Cons.prems(2) show ?thesis by simp
  next
    case False
    have "cmp y x \<le> 0"
      using consistent_on_flip [OF con, of x y] False by simp
    with False le_y Cons.IH [OF sub srt] show ?thesis
      by (simp add: set_insert_by)
  qed
qed

lemma sorted_insertion_sort:
  "consistent_on cmp (set xs) \<Longrightarrow> sorted_wrt (\<lambda>a b. cmp a b \<le> 0) (insertion_sort cmp xs)"
proof (induction xs)
  case Nil
  show ?case by simp
next
  case (Cons x xs)
  have sub: "consistent_on cmp (set xs)"
    by (rule consistent_on_subset [OF Cons.prems]) auto
  show ?case
    using Cons.prems Cons.IH [OF sub] by (simp add: sorted_insert_by set_insertion_sort)
qed

lemma host_sort_insertion_sort: "host_sort insertion_sort"
  unfolding host_sort_def by (simp add: mset_insertion_sort sorted_insertion_sort)

section \<open>Results: integrity checker\<close>

lemma checkBounds_loop_char:
  "checkBounds_loop W H es (oob, pv, fv) =
     (oob @ map oob_entry_of (filter (in_class W H OutOfBounds) es),
      pv @ map pv_entry_of (filter (in_class W H PartiallyVisible) es),
      fv + length (filter (in_class W H FullyVisible) es))"
proof (induction es arbitrary: oob pv fv)
  case Nil
  show ?case by simp
next
  case (Cons e es)
  show ?case
  proof (cases "bounds e")
    case None
    then show ?thesis using Cons.IH by (simp add: in_class_def)
  next
    case (Some b)
    then show ?thesis using Cons.IH
      by (simp add: in_class_def classify_def interval_outside_def edge_crosses_def
          margin_def oob_entry_of_def pv_entry_of_def)
  qed
qed

lemma checkBounds_char:
  "checkBounds ab es dw dh =
     \<lparr>valid = (filter (in_class (checkWidth_of ab dw) (checkHeight_of ab dh) OutOfBounds) es = []),
      outOfBounds =
        map oob_entry_of (filter (in_class (checkWidth_of ab dw) (checkHeight_of ab dh) OutOfBounds) es),
      partiallyVisible =
        map pv_entry_of (filter (in_class (checkWidth_of ab dw) (checkHeight_of ab dh) PartiallyVisible) es),
      fullyVisible =
        length (filter (in_class (checkWidth_of ab dw) (checkHeight_of ab dh) FullyVisible) es),
      artboardSize =
        \<lparr>ab_width = checkWidth_of ab dw, ab_height = checkHeight_of ab dh\<rparr>\<rparr>"
  by (simp add: checkBounds_def Let_def checkBounds_loop_char checkWidth_of_def checkHeight_of_def)

lemma in_class_has_bounds: "in_class W H v e \<Longrightarrow> bounds e \<noteq> None"
  by (auto simp: in_class_def split: option.splits)

lemma filter_in_class_bounded:
  "filter (in_class W H v) (filter (\<lambda>e. bounds e \<noteq> None) es) = filter (in_class W H v) es"
  by (induction es) (auto dest: in_class_has_bounds)

lemma class_partition:
  "length (filter (in_class W H OutOfBounds) es) +
   length (filter (in_class W H PartiallyVisible) es) +
   length (filter (in_class W H FullyVisible) es) =
   length (filter (\<lambda>e. bounds e \<noteq> None) es)"
proof (induction es)
  case Nil
  show ?case by simp
next
  case (Cons e es)
  show ?case
  proof (cases "bounds e")
    case None
    then show ?thesis using Cons.IH by (simp add: in_class_def)
  next
    case (Some b)
    then show ?thesis using Cons.IH
      by (cases "classify W H b") (simp_all add: in_class_def)
  qed
qed

lemma length_filter_bounded_less:
  "e \<in> set es \<Longrightarrow> bounds e = None \<Longrightarrow> length (filter (\<lambda>e. bounds e \<noteq> None) es) < length es"
  by (rule length_filter_less [where x = e]) simp_all

text \<open>
  \<^bold>\<open>C1.\<close> Every id that occurs more than once in the list handed to
  \<open>checkIdUniqueness\<close> is to be flagged in \<open>duplicates\<close>, in particular when its first
  occurrence is at index 0. The code stores the index of the first occurrence and
  tests the stored value for truthiness, so a first occurrence at index 0 is
  forgotten: on two elements with the same id the check reports no duplicate and
  \<open>unique = true\<close>.
\<close>

theorem checkIdUniqueness_index0_duplicate_missed:
  "checkIdUniqueness
     [\<lparr>elem_id = js ''text_1a'', elem_type = js ''text'', bounds = None\<rparr>,
      \<lparr>elem_id = js ''text_1a'', elem_type = js ''text'', bounds = None\<rparr>]
   = \<lparr>unique = True, duplicates = [], totalIds = 1\<rparr>"
  by (simp add: checkIdUniqueness_def truthy_index_def js_def)

text \<open>
  The same pair of equal ids behind one other element is flagged: the stored index
  is then 1, which is truthy.
\<close>

lemma checkIdUniqueness_index1_duplicate_flagged:
  "checkIdUniqueness
     [\<lparr>elem_id = js ''group_0'', elem_type = js ''group'', bounds = None\<rparr>,
      \<lparr>elem_id = js ''text_1a'', elem_type = js ''text'', bounds = None\<rparr>,
      \<lparr>elem_id = js ''text_1a'', elem_type = js ''text'', bounds = None\<rparr>]
   = \<lparr>unique = False,
      duplicates = [\<lparr>dup_id = js ''text_1a'', indices = [1, 2]\<rparr>],
      totalIds = 2\<rparr>"
  by (simp add: checkIdUniqueness_def truthy_index_def js_def)



text \<open>
  \<^bold>\<open>C10.\<close> \<open>checkBounds\<close> skips every element without a \<open>bounds\<close> field: removing
  such elements from the input does not change the result, the three classes
  partition the elements that carry bounds, and their sizes add up to less than the
  number of elements checked as soon as one element has no bounds.
\<close>

theorem checkBounds_skips_unbounded:
  "checkBounds ab es dw dh = checkBounds ab (filter (\<lambda>e. bounds e \<noteq> None) es) dw dh \<and>
   length (outOfBounds (checkBounds ab es dw dh)) +
   length (partiallyVisible (checkBounds ab es dw dh)) +
   fullyVisible (checkBounds ab es dw dh) = length (filter (\<lambda>e. bounds e \<noteq> None) es) \<and>
   ((\<exists>e \<in> set es. bounds e = None) \<longrightarrow>
      length (outOfBounds (checkBounds ab es dw dh)) +
      length (partiallyVisible (checkBounds ab es dw dh)) +
      fullyVisible (checkBounds ab es dw dh) < length es)"
proof -
  let ?n = "length (outOfBounds (checkBounds ab es dw dh)) +
     length (partiallyVisible (checkBounds ab es dw dh)) +
     fullyVisible (checkBounds ab es dw dh)"
  have same: "checkBounds ab es dw dh =
      checkBounds ab (filter (\<lambda>e. bounds e \<noteq> None) es) dw dh"
    by (simp only: checkBounds_char filter_in_class_bounded)
  have count: "?n = length (filter (\<lambda>e. bounds e \<noteq> None) es)"
    using class_partition [of "checkWidth_of ab dw" "checkHeight_of ab dh" es]
    by (simp add: checkBounds_char)
  have less: "?n < length es" if "\<exists>e \<in> set es. bounds e = None"
    using that count length_filter_bounded_less by auto
  from same count less show ?thesis by blast
qed

theorem checkBounds_skips_unbounded_witness:
  "(\<exists>e \<in> set example_elements. bounds e = None) \<and>
   length (outOfBounds (checkBounds None example_elements 1000 1000)) +
   length (partiallyVisible (checkBounds None example_elements 1000 1000)) +
   fullyVisible (checkBounds None example_elements 1000 1000) < 4"
proof -
  have ex: "\<exists>e \<in> set example_elements. bounds e = None"
    by (simp add: example_elements_def)
  have len: "length example_elements = 4"
    by (simp add: example_elements_def)
  from checkBounds_skips_unbounded [of None example_elements 1000 1000] ex
  have "length (outOfBounds (checkBounds None example_elements 1000 1000)) +
     length (partiallyVisible (checkBounds None example_elements 1000 1000)) +
     fullyVisible (checkBounds None example_elements 1000 1000) < length example_elements"
    by blast
  with ex len show ?thesis by simp
qed

section \<open>Results: pattern matcher\<close>

lemma hasAllRequired_iff:
  "hasAllRequired ct ks \<longleftrightarrow> (\<forall>k \<in> set ks. \<exists>r rs. map_of ct k = Some (r # rs))"
  by (induction ks) (auto split: option.splits simp: neq_Nil_conv)

lemma optionalCount_eq:
  "optionalCount ct ks = length (filter (\<lambda>k. map_of ct k \<noteq> None) ks)"
  by (induction ks) (auto split: option.splits)

lemma definitionMatches_iff:
  "definitionMatches ct d \<longleftrightarrow>
     hasAllRequired ct (pd_required d) \<and>
     \<not> belowMinFields d (optionalCount ct (pd_optional d))"
  by (auto simp: definitionMatches_def hasAllRequired_iff optionalCount_eq belowMinFields_def
      split: option.splits)

lemma map_of_addRequired:
  "map_of (addRequired ct ks flds) k =
     (if k \<in> set ks then Some (firstRecord ct k) else map_of flds k)"
  by (induction ks arbitrary: flds) (auto simp: update_conv)

lemma map_of_addOptional:
  "map_of (addOptional ct ks flds) k =
     (if k \<in> set ks \<and> map_of ct k \<noteq> None then Some (firstRecord ct k) else map_of flds k)"
  by (induction ks arbitrary: flds) (auto simp: update_conv split: option.splits)

lemma matchPattern_None:
  "find (definitionMatches ct) catalog = None \<Longrightarrow> matchPattern catalog grp ct = None"
  by (induction catalog) (auto simp: definitionMatches_iff split: if_splits)

lemma matchPattern_Some:
  "find (definitionMatches ct) catalog = Some d \<Longrightarrow>
   matchPattern catalog grp ct =
     Some \<lparr>patternId = pd_id d, patternLabel = pd_label d,
           groupId = g_id grp, groupPath = g_path grp,
           position = g_position grp, pm_size = g_size grp,
           pm_fields = addOptional ct (pd_optional d) (addRequired ct (pd_required d) []),
           repeatable = pd_repeatable d, repeatIndex = 0, repeatTotal = None\<rparr>"
  by (induction catalog) (auto simp: definitionMatches_iff split: if_splits)

lemma required_field_bound:
  assumes "k \<in> set (pd_required d)" and "map_of ct k = Some (r # rs)"
  shows "map_of (addOptional ct (pd_optional d) (addRequired ct (pd_required d) [])) k
           = Some (Some r)"
  using assms by (simp add: map_of_addOptional map_of_addRequired firstRecord_def)

text \<open>
  \<^bold>\<open>C3.\<close> For a container and the tag map of its direct children, \<open>matchPattern\<close>
  returns at most one match: none when no definition of the catalog matches, and
  otherwise the match of the first definition, in catalog order, whose required keys
  all have at least one record and for which, when \<open>minFields\<close> is set,
  \<open>required.length\<close> plus the number of optional keys present reaches \<open>minFields\<close>.
  In the returned match every required key is present in \<open>fields\<close>, bound to the
  first record of its list.
\<close>

theorem matchPattern_first_matching_definition:
  "(find (definitionMatches childTags) catalog = None \<longrightarrow>
      matchPattern catalog grp childTags = None) \<and>
   (\<forall>d. find (definitionMatches childTags) catalog = Some d \<longrightarrow>
      (\<exists>m. matchPattern catalog grp childTags = Some m \<and>
           patternId m = pd_id d \<and> groupId m = g_id grp \<and>
           (\<forall>k \<in> set (pd_required d).
              \<exists>r rs. map_of childTags k = Some (r # rs) \<and>
                     map_of (pm_fields m) k = Some (Some r))))"
proof (intro conjI allI impI)
  assume "find (definitionMatches childTags) catalog = None"
  then show "matchPattern catalog grp childTags = None"
    by (rule matchPattern_None)
next
  fix d
  assume found: "find (definitionMatches childTags) catalog = Some d"
  then have "definitionMatches childTags d"
    by (auto simp: find_Some_iff)
  then have req: "\<forall>k \<in> set (pd_required d). \<exists>r rs. map_of childTags k = Some (r # rs)"
    by (simp add: definitionMatches_def)
  have "\<forall>k \<in> set (pd_required d).
      \<exists>r rs. map_of childTags k = Some (r # rs) \<and>
        map_of (addOptional childTags (pd_optional d)
                  (addRequired childTags (pd_required d) [])) k = Some (Some r)"
    using req required_field_bound by blast
  then show "\<exists>m. matchPattern catalog grp childTags = Some m \<and>
      patternId m = pd_id d \<and> groupId m = g_id grp \<and>
      (\<forall>k \<in> set (pd_required d).
         \<exists>r rs. map_of childTags k = Some (r # rs) \<and>
                map_of (pm_fields m) k = Some (Some r))"
    by (simp add: matchPattern_Some [OF found])
qed

lemma scenarioC_guest_matches:
  "find (definitionMatches scenarioC_tags) COMPOSITE_PATTERNS = Some GUEST_CARD"
  by (simp add: COMPOSITE_PATTERNS_def definitionMatches_def GUEST_CARD_def scenarioC_tags_def
      js_def)

theorem matchPattern_first_matching_definition_witness:
  "find (definitionMatches scenarioC_tags) COMPOSITE_PATTERNS = Some GUEST_CARD \<and>
   (\<exists>m. matchPattern COMPOSITE_PATTERNS scenarioC_group scenarioC_tags = Some m \<and>
        patternId m = js ''guest'' \<and>
        map_of (pm_fields m) (js ''avatar'') =
          Some (Some (mkTag (js ''img_1'') (js ''avatar'') (js ''photo.png''))) \<and>
        map_of (pm_fields m) (js ''name'') =
          Some (Some (mkTag (js ''text_2'') (js ''name'') [0x5F20, 0x4E09])))"
proof -
  note found = scenarioC_guest_matches
  from matchPattern_first_matching_definition
         [of scenarioC_tags COMPOSITE_PATTERNS scenarioC_group] found
  obtain m where m: "matchPattern COMPOSITE_PATTERNS scenarioC_group scenarioC_tags = Some m"
      "patternId m = pd_id GUEST_CARD"
      "\<forall>k \<in> set (pd_required GUEST_CARD).
         \<exists>r rs. map_of scenarioC_tags k = Some (r # rs) \<and>
                map_of (pm_fields m) k = Some (Some r)"
    by blast
  from m(3) have "map_of (pm_fields m) (js ''avatar'') =
      Some (Some (mkTag (js ''img_1'') (js ''avatar'') (js ''photo.png'')))"
    and "map_of (pm_fields m) (js ''name'') =
      Some (Some (mkTag (js ''text_2'') (js ''name'') [0x5F20, 0x4E09]))"
    by (simp_all add: GUEST_CARD_def scenarioC_tags_def js_def)
  with found m(1,2) show ?thesis
    by (simp add: GUEST_CARD_def)
qed

subsection \<open>Repeat groups\<close>

















lemma perm_set: "mset xs = mset ys \<Longrightarrow> set xs = set ys"
  by (rule mset_eq_setD)














lemma detect_scenarioD:
  "map repeatIndex (detectRepeatablePatterns insertion_sort scenarioD) = [1, 2, 0]"
  by (simp add: detectRepeatablePatterns_def scenarioD_def mkMatch_def js_def
      comparePosition_def Let_def)



text \<open>
  The three matches \<open>A\<close> at \<open>(x, y) = (100, 0)\<close>, \<open>B\<close> at \<open>(50, 15)\<close> and \<open>C\<close> at
  \<open>(0, 30)\<close>. \<open>detectRepeatablePatterns\<close> hands their indices to the sort once and
  numbers the matches in the order the sort returns; a host sort returns one of the
  six orders of the three indices.
\<close>

lemma detect_cyclicMatches_host:
  "detectRepeatablePatterns srt cyclicMatches =
     assignIndices
       (srt (\<lambda>a b. comparePosition (cyclicMatches ! a) (cyclicMatches ! b)) [0, 1, 2])
       0 3 cyclicMatches"
proof -
  have g: "groupByType cyclicMatches 0 [] = [(js ''guest'', [0, 1, 2])]"
    by (simp add: cyclicMatches_def mkMatch_def js_def)
  show ?thesis
    unfolding detectRepeatablePatterns_def g by (simp add: numeral_3_eq_3)
qed

lemma mset_Cons_remove1:
  assumes "mset (x # xs) = mset ys"
  shows "x \<in> set ys \<and> mset xs = mset (remove1 x ys)"
proof
  from assms have "x \<in># mset ys" by (metis mset.simps(2) union_single_eq_member)
  then show "x \<in> set ys" by simp
  have "mset (remove1 x ys) = mset ys - {#x#}" by simp
  also have "\<dots> = mset xs" using assms [symmetric] by simp
  finally show "mset xs = mset (remove1 x ys)" by simp
qed

lemma mset_three:
  assumes m: "mset s = mset [0, 1, 2 :: nat]"
  shows "s \<in> {[0, 1, 2], [0, 2, 1], [1, 0, 2], [1, 2, 0], [2, 0, 1], [2, 1, 0]}"
proof -
  from m have "length s = length [0, 1, 2 :: nat]" by (rule mset_eq_length)
  then obtain a b c where s: "s = [a, b, c]"
    by (metis length_0_conv length_Suc_conv)
  from m have a: "a \<in> set [0, 1, 2 :: nat]" and ma: "mset [b, c] = mset (remove1 a [0, 1, 2])"
    using mset_Cons_remove1 [of a "[b, c]" "[0, 1, 2]"] unfolding s by blast+
  from ma have b: "b \<in> set (remove1 a [0, 1, 2])"
      and mb: "mset [c] = mset (remove1 b (remove1 a [0, 1, 2]))"
    using mset_Cons_remove1 [of b "[c]" "remove1 a [0, 1, 2]"] by blast+
  from a consider "a = 0" | "a = 1" | "a = 2" by auto
  then show ?thesis
  proof cases
    case 1
    with b consider "b = 1" | "b = 2" by auto
    then show ?thesis using mb 1 unfolding s by cases simp_all
  next
    case 2
    with b consider "b = 0" | "b = 2" by auto
    then show ?thesis using mb 2 unfolding s by cases simp_all
  next
    case 3
    with b consider "b = 0" | "b = 1" by auto
    then show ?thesis using mb 3 unfolding s by cases simp_all
  qed
qed

lemma host_sort_three:
  assumes "host_sort srt"
  shows "srt cmp [0, 1, 2 :: nat] \<in>
     {[0, 1, 2], [0, 2, 1], [1, 0, 2], [1, 2, 0], [2, 0, 1], [2, 1, 0]}"
proof (rule mset_three)
  from assms show "mset (srt cmp [0, 1, 2 :: nat]) = mset [0, 1, 2]"
    unfolding host_sort_def by blast
qed

text \<open>
  No assignment of indices satisfies both ordering rules on the three matches, so the
  result of \<open>detectRepeatablePatterns\<close> breaks one of them for every sort, consistent
  with the host's contract or not.
\<close>

lemma cyclicMatches_order_unsatisfiable:
  fixes ri :: "nat \<Rightarrow> nat"
  shows "\<not> (\<forall>a \<in> {0, 1, 2}. \<forall>b \<in> {0, 1, 2}.
      (sameBucket (cyclicMatches ! a) (cyclicMatches ! b) \<and>
       pt_x (position (cyclicMatches ! a)) < pt_x (position (cyclicMatches ! b)) \<longrightarrow>
         ri a < ri b) \<and>
      (\<not> sameBucket (cyclicMatches ! a) (cyclicMatches ! b) \<and>
       pt_y (position (cyclicMatches ! a)) < pt_y (position (cyclicMatches ! b)) \<longrightarrow>
         ri a < ri b))"
proof
  assume all: "\<forall>a \<in> {0, 1, 2}. \<forall>b \<in> {0, 1, 2}.
      (sameBucket (cyclicMatches ! a) (cyclicMatches ! b) \<and>
       pt_x (position (cyclicMatches ! a)) < pt_x (position (cyclicMatches ! b)) \<longrightarrow>
         ri a < ri b) \<and>
      (\<not> sameBucket (cyclicMatches ! a) (cyclicMatches ! b) \<and>
       pt_y (position (cyclicMatches ! a)) < pt_y (position (cyclicMatches ! b)) \<longrightarrow>
         ri a < ri b)"
  have "ri 1 < ri 0"
    using all [rule_format, of 1 0] by (simp add: cyclicMatches_def mkMatch_def sameBucket_def)
  moreover have "ri 2 < ri 1"
    using all [rule_format, of 2 1] by (simp add: cyclicMatches_def mkMatch_def sameBucket_def)
  moreover have "ri 0 < ri 2"
    using all [rule_format, of 0 2] by (simp add: cyclicMatches_def mkMatch_def sameBucket_def)
  ultimately show False by simp
qed

lemma detectRepeatablePatterns_cyclic_any_host:
  "\<not> (\<forall>a \<in> {0, 1, 2}. \<forall>b \<in> {0, 1, 2}.
      (sameBucket (cyclicMatches ! a) (cyclicMatches ! b) \<and>
       pt_x (position (cyclicMatches ! a)) < pt_x (position (cyclicMatches ! b)) \<longrightarrow>
         repeatIndex (detectRepeatablePatterns srt cyclicMatches ! a)
           < repeatIndex (detectRepeatablePatterns srt cyclicMatches ! b)) \<and>
      (\<not> sameBucket (cyclicMatches ! a) (cyclicMatches ! b) \<and>
       pt_y (position (cyclicMatches ! a)) < pt_y (position (cyclicMatches ! b)) \<longrightarrow>
         repeatIndex (detectRepeatablePatterns srt cyclicMatches ! a)
           < repeatIndex (detectRepeatablePatterns srt cyclicMatches ! b)))"
  by (rule cyclicMatches_order_unsatisfiable
      [of "\<lambda>k. repeatIndex (detectRepeatablePatterns srt cyclicMatches ! k)"])


section \<open>Results: variable namer\<close>

subsection \<open>Number rendering\<close>

lemma digitChar_digit: "d < 10 \<Longrightarrow> 48 \<le> digitChar d \<and> digitChar d \<le> 57"
  by (simp add: digitChar_def)

lemma dec_digits: "u \<in> set (dec n) \<Longrightarrow> 48 \<le> u \<and> u \<le> 57"
proof (induction n rule: dec.induct)
  case (1 n)
  show ?case
  proof (cases "n < 10")
    case True
    with "1.prems" show ?thesis
      by (simp add: dec.simps [of n] digitChar_def)
  next
    case False
    with "1.prems" have "u \<in> set (dec (n div 10)) \<or> u = digitChar (n mod 10)"
      by (auto simp: dec.simps [of n])
    then show ?thesis
      using "1.IH" [OF False] digitChar_digit [of "n mod 10"] by auto
  qed
qed

lemma undec_dec: "undec (dec n) = n"
proof (induction n rule: dec.induct)
  case (1 n)
  show ?case
  proof (cases "n < 10")
    case True
    then show ?thesis
      by (simp add: dec.simps [of n] undec_def digitChar_def)
  next
    case False
    have "undec (dec n) = 10 * undec (dec (n div 10)) + (digitChar (n mod 10) - 48)"
      using False by (simp add: dec.simps [of n] undec_def)
    also have "\<dots> = 10 * (n div 10) + n mod 10"
      using "1.IH" [OF False] by (simp add: digitChar_def)
    finally show ?thesis by simp
  qed
qed

lemma dec_inject: "dec m = dec n \<Longrightarrow> m = n"
  by (metis undec_dec)

lemma underscore_not_in_dec: "95 \<notin> set (dec n)"
  using dec_digits [of 95 n] by auto

lemma split_at_last:
  assumes "xs @ [s] @ ys = xs' @ [s] @ ys'" and "s \<notin> set ys" and "s \<notin> set ys'"
  shows "xs = xs' \<and> ys = ys'"
proof -
  have "rev ys @ [s] @ rev xs = rev ys' @ [s] @ rev xs'"
    using assms(1) by (metis append_assoc rev.simps(2) rev_append rev_rev_ident rev_singleton_conv)
  moreover have "as @ [s] @ bs = as' @ [s] @ bs' \<Longrightarrow> s \<notin> set as \<Longrightarrow> s \<notin> set as' \<Longrightarrow>
      as = as' \<and> bs = bs'" for as as' bs bs' :: "'a list"
  proof (induction as arbitrary: as')
    case Nil
    then show ?case by (cases as') auto
  next
    case (Cons a as)
    then show ?case by (cases as') auto
  qed
  ultimately have "rev ys = rev ys' \<and> rev xs = rev xs'"
    using assms(2,3) by (metis set_rev)
  then show ?thesis by simp
qed

lemma standalone_id_inject:
  assumes "key @ js ''_'' @ dec m = key' @ js ''_'' @ dec m'"
  shows "key = key' \<and> m = m'"
proof -
  have "key @ [95] @ dec m = key' @ [95] @ dec m'"
    using assms by (simp add: js_def)
  then have "key = key' \<and> dec m = dec m'"
    by (rule split_at_last) (rule underscore_not_in_dec)+
  then show ?thesis by (auto dest: dec_inject)
qed

subsection \<open>Variable namer\<close>

lemma counterOf_update:
  "counterOf (AList.update k v c) k' = (if k' = k then v else counterOf c k')"
  by (simp add: counterOf_def update_conv)

lemma generateId_standalone:
  "generateId c JNull ft JNull =
     (keyOf ft @ js ''_'' @ dec (counterOf c (keyOf ft)),
      AList.update (keyOf ft) (Suc (counterOf c (keyOf ft)))
        (AList.update (keyOf ft) (counterOf c (keyOf ft)) c))"
  by (simp add: generateId_def keyOf_def counterOf_def Let_def)

lemma allocateStandalone_Cons:
  "allocateStandalone c (ft # rest) =
     (keyOf ft @ js ''_'' @ dec (counterOf c (keyOf ft))) #
     allocateStandalone
       (AList.update (keyOf ft) (Suc (counterOf c (keyOf ft)))
          (AList.update (keyOf ft) (counterOf c (keyOf ft)) c)) rest"
  by (simp add: generateId_standalone)

lemma length_allocateStandalone: "length (allocateStandalone c fts) = length fts"
  by (induction fts arbitrary: c) (simp_all add: allocateStandalone_Cons del: allocateStandalone.simps(2))

lemma allocateStandalone_nth:
  "i < length fts \<Longrightarrow>
   allocateStandalone c fts ! i =
     keyOf (fts ! i) @ js ''_'' @
     dec (counterOf c (keyOf (fts ! i)) +
          length (filter (\<lambda>f. keyOf f = keyOf (fts ! i)) (take i fts)))"
proof (induction fts arbitrary: c i)
  case Nil
  then show ?case by simp
next
  case (Cons ft rest)
  show ?case
  proof (cases i)
    case 0
    then show ?thesis
      by (simp add: allocateStandalone_Cons del: allocateStandalone.simps(2))
  next
    case (Suc j)
    then have j: "j < length rest" using Cons.prems by simp
    show ?thesis
      using Cons.IH [OF j] Suc
      by (simp add: allocateStandalone_Cons counterOf_update del: allocateStandalone.simps(2))
  qed
qed

lemma allocateStandalone_distinct: "distinct (allocateStandalone c fts)"
  unfolding distinct_conv_nth
proof (intro allI impI)
  fix i j
  assume i: "i < length (allocateStandalone c fts)"
    and j: "j < length (allocateStandalone c fts)" and ne: "i \<noteq> j"
  let ?cnt = "\<lambda>i. length (filter (\<lambda>f. keyOf f = keyOf (fts ! i)) (take i fts))"
  show "allocateStandalone c fts ! i \<noteq> allocateStandalone c fts ! j"
  proof
    assume eq: "allocateStandalone c fts ! i = allocateStandalone c fts ! j"
    have il: "i < length fts" and jl: "j < length fts"
      using i j by (simp_all add: length_allocateStandalone)
    from eq have "keyOf (fts ! i) = keyOf (fts ! j) \<and>
        counterOf c (keyOf (fts ! i)) + ?cnt i = counterOf c (keyOf (fts ! j)) + ?cnt j"
      unfolding allocateStandalone_nth [OF il] allocateStandalone_nth [OF jl]
      by (rule standalone_id_inject)
    then have key: "keyOf (fts ! i) = keyOf (fts ! j)" and cnt: "?cnt i = ?cnt j"
      by (simp, metis add_left_cancel)
    have mono: "?cnt a < ?cnt b"
      if "a < b" "b < length fts" "keyOf (fts ! a) = keyOf (fts ! b)" for a b
    proof -
      have "take b fts = take a fts @ fts ! a # drop (Suc a) (take b fts)"
        using that(1,2) by (metis Cons_nth_drop_Suc append_take_drop_id length_take
            min.absorb4 nth_take take_take min.strict_order_iff)
      then have "length (filter (\<lambda>f. keyOf f = keyOf (fts ! b)) (take b fts)) =
          length (filter (\<lambda>f. keyOf f = keyOf (fts ! b)) (take a fts)) +
          length (filter (\<lambda>f. keyOf f = keyOf (fts ! b))
                    (fts ! a # drop (Suc a) (take b fts)))"
        by (metis filter_append length_append)
      then show ?thesis using that(3) by simp
    qed
    from ne consider "i < j" | "j < i" by linarith
    then show False
    proof cases
      case 1
      then show False using mono [OF 1 jl key] cnt by simp
    next
      case 2
      then show False using mono [OF 2 il key [symmetric]] cnt by simp
    qed
  qed
qed

lemma allocateStandalone_replicate:
  "allocateStandalone c (replicate n ft) =
     map (\<lambda>k. keyOf ft @ js ''_'' @ dec (counterOf c (keyOf ft) + k)) [0..<n]"
proof (rule nth_equalityI)
  show "length (allocateStandalone c (replicate n ft)) =
      length (map (\<lambda>k. keyOf ft @ js ''_'' @ dec (counterOf c (keyOf ft) + k)) [0..<n])"
    by (simp add: length_allocateStandalone)
next
  fix i
  assume "i < length (allocateStandalone c (replicate n ft))"
  then have i: "i < n" by (simp add: length_allocateStandalone)
  then have "allocateStandalone c (replicate n ft) ! i =
      keyOf ft @ js ''_'' @ dec (counterOf c (keyOf ft) + i)"
    using allocateStandalone_nth [of i "replicate n ft" c] by simp
  with i show "allocateStandalone c (replicate n ft) ! i =
      map (\<lambda>k. keyOf ft @ js ''_'' @ dec (counterOf c (keyOf ft) + k)) [0..<n] ! i"
    by simp
qed

lemma allocate_example:
  "allocateStandalone reset [JStr (js ''text''), JStr (js ''name''), JStr (js ''text'')] =
     [js ''text_0'', js ''name_0'', js ''text_1'']"
  by (simp add: generateId_def reset_def js_def dec.simps digitChar_def Let_def)

text \<open>
  \<^bold>\<open>C8.\<close> Within one detection pass the variable namer never emits a key twice:
  the keys of any sequence of standalone allocations after a reset are pairwise
  distinct. Each allocation yields \<open>{type-key}_{n}\<close>, where \<open>n\<close> is the number of
  earlier allocations for the same type-key: the counter of a type-key starts at 0
  and goes up by one with every allocation, so \<open>n\<close> allocations for one type-key
  yield the numbers \<open>0, \<dots>, n-1\<close>.
\<close>

theorem variableNamer_standalone_keys:
  "distinct (allocateStandalone reset fieldTypes) \<and>
   (\<forall>i < length fieldTypes.
      allocateStandalone reset fieldTypes ! i =
        keyOf (fieldTypes ! i) @ js ''_'' @
        dec (length (filter (\<lambda>f. keyOf f = keyOf (fieldTypes ! i)) (take i fieldTypes)))) \<and>
   allocateStandalone reset (replicate n fieldType) =
     map (\<lambda>k. keyOf fieldType @ js ''_'' @ dec k) [0..<n]"
proof -
  have zero: "counterOf reset key = 0" for key
    by (simp add: counterOf_def reset_def)
  show ?thesis
    using allocateStandalone_distinct [of reset fieldTypes]
      allocateStandalone_nth [of _ fieldTypes reset]
      allocateStandalone_replicate [of reset n fieldType]
    by (simp add: zero)
qed

theorem variableNamer_standalone_keys_witness:
  "(2::nat) < length [JStr (js ''text''), JStr (js ''name''), JStr (js ''text'')] \<and>
   allocateStandalone reset [JStr (js ''text''), JStr (js ''name''), JStr (js ''text'')] ! 2
     = js ''text_1'' \<and>
   distinct (allocateStandalone reset
     [JStr (js ''text''), JStr (js ''name''), JStr (js ''text'')])"
proof -
  let ?fts = "[JStr (js ''text''), JStr (js ''name''), JStr (js ''text'')]"
  note inst = variableNamer_standalone_keys [of ?fts 0 JNull]
  have len: "(2::nat) < length ?fts" by simp
  from inst have d: "distinct (allocateStandalone reset ?fts)" by blast
  from inst len have "allocateStandalone reset ?fts ! 2 =
      keyOf (?fts ! 2) @ js ''_'' @
      dec (length (filter (\<lambda>f. keyOf f = keyOf (?fts ! 2)) (take 2 ?fts)))"
    by blast
  also have "\<dots> = js ''text_1''"
    by (simp add: keyOf_def js_def dec.simps digitChar_def take_Suc_conv_app_nth numeral_2_eq_2)
  finally show ?thesis using len d by blast
qed

section \<open>Results: identity generator\<close>


















section \<open>Results: multi-tag detector\<close>

subsection \<open>Regular expressions\<close>

lemma nullable_minLen: "nullable r \<Longrightarrow> minLen r = 0"
  by (induction r) auto

lemma minLen_deriv: "minLen r \<le> Suc (minLen (deriv c r))"
  by (induction r) (auto simp: nullable_minLen)

lemma matchesPrefix_minLen: "matchesPrefix r s \<Longrightarrow> minLen r \<le> length s"
proof (induction s arbitrary: r)
  case Nil
  then show ?case by (simp add: nullable_minLen)
next
  case (Cons c cs)
  show ?case
  proof (cases "nullable r")
    case True
    then show ?thesis by (simp add: nullable_minLen)
  next
    case False
    with Cons.prems have "matchesPrefix (deriv c r) cs" by simp
    then have "minLen (deriv c r) \<le> length cs" by (rule Cons.IH)
    with minLen_deriv [of r c] show ?thesis by simp
  qed
qed

lemma rx_test_minLen: "rx_test r s \<Longrightarrow> minLen r \<le> length s"
proof (induction s)
  case Nil
  then show ?case by (simp add: nullable_minLen)
next
  case (Cons c cs)
  from Cons.prems have "matchesPrefix r (c # cs) \<or> rx_test r cs" by simp
  then show ?case
  proof
    assume "matchesPrefix r (c # cs)"
    then show ?thesis by (rule matchesPrefix_minLen)
  next
    assume "rx_test r cs"
    then have "minLen r \<le> length cs" by (rule Cons.IH)
    then show ?thesis by simp
  qed
qed

lemma rx_test_short: "length s < minLen r \<Longrightarrow> \<not> rx_test r s"
  using rx_test_minLen [of r s] by auto

lemma times_numeral: "times (numeral k) r = Seq r (times (pred_numeral k) r)"
  by (simp add: numeral_eq_Suc)

lemma minLen_rules:
  "minLen rx_date = 8" "minLen rx_time = 4" "minLen rx_phone = 11" "minLen rx_email = 5"
  "minLen rx_price = 2" "minLen rx_percent = 2" "minLen rx_title = 2" "minLen rx_wechat = 3"
  "minLen rx_address = 1"
  by (simp_all add: rx_date_def rx_time_def rx_phone_def rx_email_def rx_price_def
      rx_percent_def rx_title_def rx_wechat_def rx_address_def titleKeywords_def
      addressKeywords_def Plus_def Opt_def oneOrTwo_def times_numeral js_def)

lemma rx_address_single: "rx_test rx_address [u] \<longleftrightarrow> u \<in> set singleAddressUnits"
  by (simp add: rx_address_def addressKeywords_def singleAddressUnits_def inClass_def) blast

subsection \<open>Text detection\<close>

lemma mem_push: "x \<in> set (push b t ts) \<longleftrightarrow> x \<in> set ts \<or> (b \<and> x = t)"
  by (auto simp: push_def)

lemma ruleTags_mem:
  "t \<in> set (ruleTags s) \<longleftrightarrow>
     (rx_test rx_date s \<and> t = \<lparr>tag_type = js ''date'', varType = DATE, confidence = 95 / 100\<rparr>) \<or>
     (rx_test rx_time s \<and> t = \<lparr>tag_type = js ''time'', varType = TIME, confidence = 9 / 10\<rparr>) \<or>
     (rx_test rx_phone s \<and> t = \<lparr>tag_type = js ''phone'', varType = PHONE, confidence = 95 / 100\<rparr>) \<or>
     (rx_test rx_email s \<and> t = \<lparr>tag_type = js ''email'', varType = EMAIL, confidence = 95 / 100\<rparr>) \<or>
     (rx_test rx_price s \<and> t = \<lparr>tag_type = js ''price'', varType = PRICE, confidence = 9 / 10\<rparr>) \<or>
     (rx_test rx_percent s \<and>
        t = \<lparr>tag_type = js ''percent'', varType = PERCENT, confidence = 9 / 10\<rparr>) \<or>
     (rx_test rx_title s \<and>
        t = \<lparr>tag_type = js ''title'', varType = PERSON_TITLE, confidence = 85 / 100\<rparr>) \<or>
     (rx_test rx_wechat s \<and> t = \<lparr>tag_type = js ''wechat'', varType = WECHAT, confidence = 9 / 10\<rparr>) \<or>
     (rx_test rx_address s \<and> t = addressTag) \<or>
     (isChineseName s \<and> t = nameTag) \<or>
     (isEventTitle s \<and>
        t = \<lparr>tag_type = js ''event_title'', varType = EVENT_TITLE, confidence = 85 / 100\<rparr>) \<or>
     (isSlogan s \<and> t = \<lparr>tag_type = js ''slogan'', varType = SLOGAN, confidence = 75 / 100\<rparr>)"
  unfolding ruleTags_def Let_def mem_push addressTag_def nameTag_def by auto

lemma ruleTags_name:
  "(\<exists>t \<in> set (ruleTags s). tag_type t = js ''name'') \<longleftrightarrow> isChineseName s"
proof
  assume "\<exists>t \<in> set (ruleTags s). tag_type t = js ''name''"
  then obtain t where "t \<in> set (ruleTags s)" and "tag_type t = js ''name''" by blast
  then show "isChineseName s"
    unfolding ruleTags_mem by (auto simp: js_def addressTag_def)
next
  assume "isChineseName s"
  then have "nameTag \<in> set (ruleTags s)" by (simp add: ruleTags_mem)
  then show "\<exists>t \<in> set (ruleTags s). tag_type t = js ''name''"
    by (rule bexI [rotated]) (simp add: nameTag_def)
qed

lemma ruleTags_name_tag:
  "t \<in> set (ruleTags s) \<Longrightarrow> tag_type t = js ''name'' \<Longrightarrow> t = nameTag"
  unfolding ruleTags_mem by (auto simp: js_def addressTag_def)

lemma ruleTags_not_text: "t \<in> set (ruleTags s) \<Longrightarrow> tag_type t \<noteq> js ''text''"
  unfolding ruleTags_mem by (auto simp: js_def addressTag_def nameTag_def)

lemma isChineseName_cjkName: "isChineseName s \<longleftrightarrow> cjkName (removeSpaces s)"
proof (cases "s = []")
  case True
  then show ?thesis by (simp add: isChineseName_def cjkName_def removeSpaces_def)
next
  case False
  have "(\<lambda>code. \<not> (code < 0x4E00 \<or> code > 0x9FA5)) = cjkUnit"
    by (auto simp: cjkUnit_def fun_eq_iff)
  then show ?thesis
    using False by (auto simp: isChineseName_def cjkName_def Let_def)
qed

lemma short_rules:
  assumes "length s < 2"
  shows "\<not> rx_test rx_date s" "\<not> rx_test rx_time s" "\<not> rx_test rx_phone s"
    "\<not> rx_test rx_email s" "\<not> rx_test rx_price s" "\<not> rx_test rx_percent s"
    "\<not> rx_test rx_title s" "\<not> rx_test rx_wechat s"
    "\<not> isChineseName s" "\<not> isEventTitle s" "\<not> isSlogan s"
proof -
  show "\<not> rx_test rx_date s" "\<not> rx_test rx_time s" "\<not> rx_test rx_phone s"
    "\<not> rx_test rx_email s" "\<not> rx_test rx_price s" "\<not> rx_test rx_percent s"
    "\<not> rx_test rx_title s" "\<not> rx_test rx_wechat s"
    using assms by (simp_all add: rx_test_short minLen_rules)
  have "length (removeSpaces s) \<le> length s"
    by (simp add: removeSpaces_def)
  with assms show "\<not> isChineseName s"
    by (simp add: isChineseName_def Let_def)
  show "\<not> isEventTitle s" "\<not> isSlogan s"
    using assms by (simp_all add: isEventTitle_def isSlogan_def)
qed

lemma ruleTags_short:
  assumes "length s < 2" and "\<not> rx_test rx_address s"
  shows "ruleTags s = []"
  using short_rules [OF assms(1)] assms(2) by (simp add: ruleTags_def push_def)

lemma ruleTags_empty: "ruleTags [] = []"
proof (rule ruleTags_short)
  show "\<not> rx_test rx_address []"
    by (rule rx_test_short) (simp add: minLen_rules)
qed simp

lemma ruleTags_single_address:
  assumes "u \<in> set singleAddressUnits"
  shows "ruleTags [u] = [addressTag]"
proof -
  have "rx_test rx_address [u]" using assms rx_address_single by blast
  with short_rules [of "[u]"] show ?thesis
    by (simp add: ruleTags_def push_def addressTag_def)
qed

lemma ruleTags_single_other:
  assumes "u \<notin> set singleAddressUnits"
  shows "ruleTags [u] = []"
proof (rule ruleTags_short)
  show "\<not> rx_test rx_address [u]" using assms rx_address_single by blast
qed simp

lemma host_sort_set: "host_sort srt \<Longrightarrow> set (srt cmp xs) = set xs"
  unfolding host_sort_def by (metis set_mset_mset)

lemma host_sort_Nil: "host_sort srt \<Longrightarrow> srt cmp [] = []"
  unfolding host_sort_def by (metis mset_zero_iff)

lemma host_sort_single: "host_sort srt \<Longrightarrow> srt cmp [a] = [a]"
  unfolding host_sort_def by (metis mset_single_iff_right mset.simps(1) mset.simps(2))

lemma detectText_empty:
  "detectText srt None = \<lparr>tags = [], primaryType = None, allTypes = None, maxConfidence = None\<rparr>"
  "detectText srt (Some []) =
     \<lparr>tags = [], primaryType = None, allTypes = None, maxConfidence = None\<rparr>"
  by (simp_all add: detectText_def)

lemma detectText_tags:
  "c \<noteq> [] \<Longrightarrow> tags (detectText srt (Some c)) = srt byConfidence (pushedTags (trim c))"
  by (simp add: detectText_def Let_def)

lemma detectText_primaryType:
  "c \<noteq> [] \<Longrightarrow> primaryType (detectText srt (Some c)) =
     (if tags (detectText srt (Some c)) = [] then None
      else Some (varType (hd (tags (detectText srt (Some c))))))"
  by (simp add: detectText_def Let_def)

lemma pushedTags_set:
  "x \<in> set (pushedTags s) \<longleftrightarrow>
     x \<in> set (ruleTags s) \<or>
     (ruleTags s = [] \<and> 2 \<le> length s \<and>
      x = \<lparr>tag_type = js ''text'', varType = TEXT,
            confidence = (if length s > 50 then 4 / 10 else 5 / 10)\<rparr>)"
  by (simp add: pushedTags_def Let_def mem_push)

lemma pushedTags_no_rules:
  "ruleTags s = [] \<Longrightarrow> length s < 2 \<Longrightarrow> pushedTags s = []"
  by (simp add: pushedTags_def push_def)

lemma pushedTags_rules:
  "ruleTags s \<noteq> [] \<Longrightarrow> pushedTags s = ruleTags s"
  by (simp add: pushedTags_def push_def)

lemma hasTagType_iff: "hasTagType ty d \<longleftrightarrow> (\<exists>t \<in> set (tags d). tag_type t = ty)"
  by (simp add: hasTagType_def list_ex_iff)

lemma detectText_name:
  assumes "host_sort srt"
  shows "hasTagType (js ''name'') (detectText srt (Some c)) \<longleftrightarrow> cjkName (removeSpaces (trim c))"
proof (cases "c = []")
  case True
  then show ?thesis
    by (simp add: hasTagType_iff detectText_empty cjkName_def removeSpaces_def trim_def)
next
  case False
  have "hasTagType (js ''name'') (detectText srt (Some c)) \<longleftrightarrow>
      (\<exists>t \<in> set (pushedTags (trim c)). tag_type t = js ''name'')"
    by (simp add: hasTagType_iff detectText_tags [OF False] host_sort_set [OF assms])
  also have "\<dots> \<longleftrightarrow> (\<exists>t \<in> set (ruleTags (trim c)). tag_type t = js ''name'')"
    by (auto simp: pushedTags_set js_def)
  also have "\<dots> \<longleftrightarrow> cjkName (removeSpaces (trim c))"
    by (simp only: ruleTags_name isChineseName_cjkName)
  finally show ?thesis .
qed

lemma detectText_name_only:
  assumes "host_sort srt" and "t \<in> set (tags (detectText srt (Some c)))"
    and "tag_type t = js ''name''"
  shows "t = nameTag"
proof (cases "c = []")
  case True
  with assms(2) show ?thesis by (simp add: detectText_empty)
next
  case False
  with assms(1,2) have "t \<in> set (pushedTags (trim c))"
    by (simp add: detectText_tags host_sort_set)
  with assms(3) have "t \<in> set (ruleTags (trim c))"
    by (auto simp: pushedTags_set js_def)
  then show ?thesis using assms(3) by (rule ruleTags_name_tag)
qed

lemma trim_examples:
  "trim [0x5F20, 0x4E09] = [0x5F20, 0x4E09]"
  "trim [0x5F20, 0x20, 0x4E09] = [0x5F20, 0x20, 0x4E09]"
  "trim [0x56E2, 0x961F] = [0x56E2, 0x961F]"
  "trim [0x5E02] = [0x5E02]"
  "trim (js '' a '') = js ''a''"
  "trim (js ''ab'') = js ''ab''"
  "trim (js ''  '') = []"
  by (simp_all add: trim_def isSpace_def inClass_def spaceRanges_def js_def)

lemma removeSpaces_examples:
  "removeSpaces [0x5F20, 0x4E09] = [0x5F20, 0x4E09]"
  "removeSpaces [0x5F20, 0x20, 0x4E09] = [0x5F20, 0x4E09]"
  "removeSpaces [0x56E2, 0x961F] = [0x56E2, 0x961F]"
  by (simp_all add: removeSpaces_def isSpace_def inClass_def spaceRanges_def)

lemma exclusion_examples:
  "\<not> hasExclusionKeyword [0x5F20, 0x4E09]"
  "\<not> hasExclusionKeyword [0x5F20, 0x20, 0x4E09]"
  "hasExclusionKeyword [0x56E2, 0x961F]"
  by (simp_all add: hasExclusionKeyword_def notNamePatterns_def)

lemma cjkName_examples:
  "cjkName [0x5F20, 0x4E09]" "\<not> cjkName [0x5F20, 0x20, 0x4E09]" "cjkName [0x56E2, 0x961F]"
  by (simp_all add: cjkName_def cjkUnit_def)

lemma detectText_no_tags:
  assumes "host_sort srt" and "c \<noteq> []" and "pushedTags (trim c) = []"
  shows "tags (detectText srt (Some c)) = [] \<and> primaryType (detectText srt (Some c)) = None"
  using assms by (simp add: detectText_primaryType detectText_tags host_sort_Nil)

lemma detectText_blank:
  assumes "host_sort srt" and "content = None \<or> (\<exists>c. content = Some c \<and> trim c = [])"
  shows "tags (detectText srt content) = [] \<and> primaryType (detectText srt content) = None"
proof -
  consider "content = None" | "content = Some []"
    | c where "content = Some c" "c \<noteq> []" "trim c = []"
    using assms(2) by blast
  then show ?thesis
  proof cases
    case 3
    have "pushedTags (trim c) = []"
      using 3(3) by (simp add: pushedTags_no_rules ruleTags_empty)
    with assms(1) 3 show ?thesis by (simp add: detectText_no_tags)
  qed (simp_all add: detectText_empty)
qed

lemma detectText_single:
  assumes "host_sort srt" and "trim c = [u]"
  shows "u \<notin> set singleAddressUnits \<longrightarrow>
      tags (detectText srt (Some c)) = [] \<and> primaryType (detectText srt (Some c)) = None"
    and "u \<in> set singleAddressUnits \<longrightarrow>
      tags (detectText srt (Some c)) = [addressTag] \<and>
      primaryType (detectText srt (Some c)) = Some ADDRESS"
proof -
  have ne: "c \<noteq> []" using assms(2) by (auto simp: trim_def)
  show "u \<notin> set singleAddressUnits \<longrightarrow>
      tags (detectText srt (Some c)) = [] \<and> primaryType (detectText srt (Some c)) = None"
  proof
    assume "u \<notin> set singleAddressUnits"
    then have "pushedTags (trim c) = []"
      using assms(2) by (simp add: pushedTags_no_rules ruleTags_single_other)
    with assms(1) ne show "tags (detectText srt (Some c)) = [] \<and>
        primaryType (detectText srt (Some c)) = None"
      by (simp add: detectText_no_tags)
  qed
  show "u \<in> set singleAddressUnits \<longrightarrow>
      tags (detectText srt (Some c)) = [addressTag] \<and>
      primaryType (detectText srt (Some c)) = Some ADDRESS"
  proof
    assume "u \<in> set singleAddressUnits"
    then have "pushedTags (trim c) = [addressTag]"
      using assms(2) by (simp add: pushedTags_rules ruleTags_single_address)
    then have "tags (detectText srt (Some c)) = [addressTag]"
      using assms(1) ne by (simp add: detectText_tags host_sort_single)
    then show "tags (detectText srt (Some c)) = [addressTag] \<and>
        primaryType (detectText srt (Some c)) = Some ADDRESS"
      using ne by (simp add: detectText_primaryType addressTag_def)
  qed
qed

lemma detectText_fallback:
  assumes "host_sort srt"
  shows "hasTagType (js ''text'') (detectText srt (Some c)) \<longleftrightarrow>
     ruleTags (trim c) = [] \<and> 2 \<le> length (trim c)"
proof (cases "c = []")
  case True
  then show ?thesis
    by (simp add: hasTagType_iff detectText_empty trim_def)
next
  case False
  have "hasTagType (js ''text'') (detectText srt (Some c)) \<longleftrightarrow>
      (\<exists>t \<in> set (pushedTags (trim c)). tag_type t = js ''text'')"
    by (simp add: hasTagType_iff detectText_tags [OF False] host_sort_set [OF assms])
  also have "\<dots> \<longleftrightarrow> ruleTags (trim c) = [] \<and> 2 \<le> length (trim c)"
    using ruleTags_not_text [of _ "trim c"] by (auto simp: pushedTags_set)
  finally show ?thesis .
qed

lemma ruleTags_ab: "ruleTags (js ''ab'') = []"
proof -
  have short: "\<not> rx_test rx_date (js ''ab'')" "\<not> rx_test rx_time (js ''ab'')"
    "\<not> rx_test rx_phone (js ''ab'')" "\<not> rx_test rx_email (js ''ab'')"
    "\<not> rx_test rx_wechat (js ''ab'')"
    by (rule rx_test_short, simp add: minLen_rules js_def)+
  have price: "\<not> rx_test rx_price (js ''ab'')"
    by (simp add: rx_price_def Plus_def js_def inClass_def)
  have percent: "\<not> rx_test rx_percent (js ''ab'')"
    by (simp add: rx_percent_def Plus_def Opt_def js_def inClass_def digitRanges_def)
  have title: "\<not> rx_test rx_title (js ''ab'')"
    by (simp add: rx_title_def titleKeywords_def js_def inClass_def)
  have address: "\<not> rx_test rx_address (js ''ab'')"
    by (simp add: rx_address_def addressKeywords_def js_def inClass_def)
  have other: "\<not> isChineseName (js ''ab'')" "\<not> isEventTitle (js ''ab'')"
    "\<not> isSlogan (js ''ab'')"
    by (simp_all add: isChineseName_def isEventTitle_def isSlogan_def removeSpaces_def
        isSpace_def inClass_def spaceRanges_def js_def)
  from short price percent title address other show ?thesis
    by (simp add: ruleTags_def push_def)
qed

text \<open>
  \<^bold>\<open>C4.\<close> For a text that contains none of the exclusion keywords, text
  classification pushes the name tag exactly when the trimmed text, with all white
  space removed, consists of 2 to 4 code units in the range \<open>U+4E00\<close> to \<open>U+9FA5\<close>;
  every tag of type \<open>name\<close> is the name tag with confidence 0.85. In particular
  \<open>"U+5F20 U+4E09"\<close> gets the name tag with confidence 0.85.
\<close>

theorem detectText_name_tag:
  assumes "host_sort srt"
  shows "\<not> hasExclusionKeyword (trim c) \<longrightarrow>
     (hasTagType (js ''name'') (detectText srt (Some c)) \<longleftrightarrow>
        cjkName (removeSpaces (trim c))) \<and>
     (\<forall>t \<in> set (tags (detectText srt (Some c))). tag_type t = js ''name'' \<longrightarrow> t = nameTag)"
proof (intro impI conjI ballI)
  show "hasTagType (js ''name'') (detectText srt (Some c)) \<longleftrightarrow>
      cjkName (removeSpaces (trim c))"
    by (rule detectText_name [OF assms])
next
  fix t
  assume "t \<in> set (tags (detectText srt (Some c)))" and "tag_type t = js ''name''"
  then show "t = nameTag"
    by (rule detectText_name_only [OF assms])
qed

theorem detectText_name_tag_witness:
  "host_sort (insertion_sort :: tag comparator \<Rightarrow> tag list \<Rightarrow> tag list) \<and>
   \<not> hasExclusionKeyword (trim [0x5F20, 0x4E09]) \<and>
   cjkName (removeSpaces (trim [0x5F20, 0x4E09])) \<and>
   hasTagType (js ''name'') (detectText insertion_sort (Some [0x5F20, 0x4E09])) \<and>
   confidence nameTag = 85 / 100"
proof -
  have hs: "host_sort (insertion_sort :: tag comparator \<Rightarrow> tag list \<Rightarrow> tag list)"
    by (rule host_sort_insertion_sort)
  have ex: "\<not> hasExclusionKeyword (trim [0x5F20, 0x4E09])"
    by (simp only: trim_examples exclusion_examples not_False_eq_True)
  have nm: "cjkName (removeSpaces (trim [0x5F20, 0x4E09]))"
    by (simp only: trim_examples removeSpaces_examples cjkName_examples)
  from detectText_name_tag [OF hs, of "[0x5F20, 0x4E09]"] ex nm
  have "hasTagType (js ''name'') (detectText insertion_sort (Some [0x5F20, 0x4E09]))"
    by blast
  with hs ex nm show ?thesis by (simp add: nameTag_def)
qed

text \<open>
  As stated, the claim fails: the name test removes white space inside the text
  before it counts and checks the code units, so \<open>"U+5F20 U+0020 U+4E09"\<close>, which
  holds a space and no exclusion keyword, is tagged as a name.
\<close>

theorem detectText_name_tag_counterexample:
  "hasTagType (js ''name'') (detectText insertion_sort (Some [0x5F20, 0x20, 0x4E09])) \<and>
   \<not> (cjkName [0x5F20, 0x20, 0x4E09] \<and> \<not> hasExclusionKeyword [0x5F20, 0x20, 0x4E09])"
proof -
  have "cjkName (removeSpaces (trim [0x5F20, 0x20, 0x4E09]))"
    by (simp only: trim_examples removeSpaces_examples cjkName_examples)
  then have "hasTagType (js ''name'') (detectText insertion_sort (Some [0x5F20, 0x20, 0x4E09]))"
    by (simp only: detectText_name [OF host_sort_insertion_sort])
  then show ?thesis
    by (simp add: cjkName_examples)
qed

text \<open>
  The two-character text \<open>"U+56E2 U+961F"\<close>, an exclusion keyword of the server's
  fallback classifier, is tagged as a name by \<open>detectText\<close>: \<open>isChineseName\<close> consults
  no exclusion list.
\<close>

lemma detectText_exclusion_keyword_tagged:
  "hasExclusionKeyword [0x56E2, 0x961F] \<and>
   hasTagType (js ''name'') (detectText insertion_sort (Some [0x56E2, 0x961F]))"
proof -
  have "cjkName (removeSpaces (trim [0x56E2, 0x961F]))"
    by (simp only: trim_examples removeSpaces_examples cjkName_examples)
  then have "hasTagType (js ''name'') (detectText insertion_sort (Some [0x56E2, 0x961F]))"
    by (simp only: detectText_name [OF host_sort_insertion_sort])
  then show ?thesis
    by (simp add: exclusion_examples)
qed

text \<open>
  \<^bold>\<open>C9.\<close> Text classification of missing, empty or white-space-only content
  returns no tag and \<open>primaryType = null\<close>. For content whose trimmed length is 1 it
  returns no tag and \<open>primaryType = null\<close> unless the one code unit is a
  single-character address keyword, in which case it returns the address tag alone,
  with \<open>primaryType\<close> the address type. The generic text tag is present exactly when
  no rule matched and the trimmed content has length at least 2.
\<close>

theorem detectText_short_text:
  assumes "host_sort srt"
  shows
  "(content = None \<or> (\<exists>c. content = Some c \<and> trim c = []) \<longrightarrow>
      tags (detectText srt content) = [] \<and> primaryType (detectText srt content) = None) \<and>
   (\<forall>c u. content = Some c \<and> trim c = [u] \<longrightarrow>
      (u \<notin> set singleAddressUnits \<longrightarrow>
         tags (detectText srt content) = [] \<and> primaryType (detectText srt content) = None) \<and>
      (u \<in> set singleAddressUnits \<longrightarrow>
         tags (detectText srt content) = [addressTag] \<and>
         primaryType (detectText srt content) = Some ADDRESS)) \<and>
   (\<forall>c. content = Some c \<longrightarrow>
      (hasTagType (js ''text'') (detectText srt content) \<longleftrightarrow>
         ruleTags (trim c) = [] \<and> 2 \<le> length (trim c)))"
proof (intro conjI allI impI)
  assume "content = None \<or> (\<exists>c. content = Some c \<and> trim c = [])"
  then show "tags (detectText srt content) = []" "primaryType (detectText srt content) = None"
    using detectText_blank [OF assms, of content] by simp_all
next
  fix c u
  assume cu: "content = Some c \<and> trim c = [u]"
  then have tr: "trim c = [u]" and co: "content = Some c" by simp_all
  {
    assume "u \<notin> set singleAddressUnits"
    then show "tags (detectText srt content) = []"
      "primaryType (detectText srt content) = None"
      using detectText_single(1) [OF assms tr] co by simp_all
  }
  {
    assume "u \<in> set singleAddressUnits"
    then show "tags (detectText srt content) = [addressTag]"
      "primaryType (detectText srt content) = Some ADDRESS"
      using detectText_single(2) [OF assms tr] co by simp_all
  }
next
  fix c
  assume "content = Some c"
  then show "hasTagType (js ''text'') (detectText srt content) \<longleftrightarrow>
      ruleTags (trim c) = [] \<and> 2 \<le> length (trim c)"
    using detectText_fallback [OF assms, of c] by simp
qed

theorem detectText_short_text_witness:
  "host_sort (insertion_sort :: tag comparator \<Rightarrow> tag list \<Rightarrow> tag list) \<and>
   trim (js ''  '') = [] \<and>
   tags (detectText insertion_sort (Some (js ''  ''))) = [] \<and>
   primaryType (detectText insertion_sort (Some (js ''  ''))) = None \<and>
   trim (js '' a '') = [97] \<and> 97 \<notin> set singleAddressUnits \<and>
   tags (detectText insertion_sort (Some (js '' a ''))) = [] \<and>
   trim [0x5E02] = [0x5E02] \<and> 0x5E02 \<in> set singleAddressUnits \<and>
   primaryType (detectText insertion_sort (Some [0x5E02])) = Some ADDRESS \<and>
   ruleTags (trim (js ''ab'')) = [] \<and> 2 \<le> length (trim (js ''ab'')) \<and>
   hasTagType (js ''text'') (detectText insertion_sort (Some (js ''ab'')))"
proof -
  have hs: "host_sort (insertion_sort :: tag comparator \<Rightarrow> tag list \<Rightarrow> tag list)"
    by (rule host_sort_insertion_sort)
  have t1: "trim (js ''  '') = []" by (rule trim_examples)
  have t2: "trim (js '' a '') = [97]" by (simp add: trim_examples) (simp add: js_def)
  have t3: "trim [0x5E02] = [0x5E02]" by (rule trim_examples)
  have t4: "trim (js ''ab'') = js ''ab''" by (rule trim_examples)
  have u2: "97 \<notin> set singleAddressUnits" and u3: "0x5E02 \<in> set singleAddressUnits"
    by (simp_all add: singleAddressUnits_def)
  have r4: "ruleTags (trim (js ''ab'')) = []" and l4: "2 \<le> length (trim (js ''ab''))"
    by (simp_all add: t4 ruleTags_ab) (simp add: js_def)
  from detectText_short_text [OF hs, of "Some (js ''  '')"] t1
  have a: "tags (detectText insertion_sort (Some (js ''  ''))) = []"
    "primaryType (detectText insertion_sort (Some (js ''  ''))) = None"
    by blast+
  from detectText_short_text [OF hs, of "Some (js '' a '')"] t2 u2
  have b: "tags (detectText insertion_sort (Some (js '' a ''))) = []"
    by blast
  from detectText_short_text [OF hs, of "Some [0x5E02]"] t3 u3
  have c: "primaryType (detectText insertion_sort (Some [0x5E02])) = Some ADDRESS"
    by blast
  from detectText_short_text [OF hs, of "Some (js ''ab'')"] r4 l4
  have d: "hasTagType (js ''text'') (detectText insertion_sort (Some (js ''ab'')))"
    by blast
  from hs t1 a t2 u2 b t3 u3 c r4 l4 d show ?thesis by blast
qed

text \<open>
  As stated, the claim fails at a text of trimmed length 1: the address expression
  has single-character alternatives, so \<open>"U+5E02"\<close> gets the address tag with
  confidence 0.75.
\<close>

theorem detectText_single_address_counterexample:
  "length (trim [0x5E02]) = 1 \<and>
   tags (detectText insertion_sort (Some [0x5E02])) = [addressTag] \<and>
   primaryType (detectText insertion_sort (Some [0x5E02])) = Some ADDRESS"
proof -
  have t: "trim [0x5E02] = [0x5E02]" by (rule trim_examples)
  have u: "0x5E02 \<in> set singleAddressUnits" by (simp add: singleAddressUnits_def)
  from detectText_single(2) [OF host_sort_insertion_sort t] u
  show ?thesis by (simp add: t)
qed

section \<open>Results: batch replacer\<close>

subsection \<open>The content search is a first-match search over the document order\<close>

lemma find_append:
  "find P (xs @ ys) = (case find P xs of None \<Rightarrow> find P ys | Some x \<Rightarrow> Some x)"
  by (induction xs) auto

lemma find_map_prefix:
  "find (\<lambda>(p, x). P x) (map (\<lambda>(p, x). (k # p, x)) xs) =
     map_option (\<lambda>(p, x). (k # p, x)) (find (\<lambda>(p, x). P x) xs)"
  by (induction xs) auto

lemma find_descendants:
  "findTextByContent item t = map_option fst (find (\<lambda>(p, x). isMatch t x) (descendants item))"
  "findInItems items k t = map_option fst (find (\<lambda>(p, x). isMatch t x) (itemsFrom items k))"
proof (induction item t and items k t rule: findTextByContent_findInItems.induct)
  case (1 tn nm ct items targetContent)
  then show ?case by simp
next
  case (2 k targetContent)
  then show ?case by simp
next
  case (3 item rest k targetContent)
  show ?case
  proof (cases "isMatch targetContent item")
    case True
    then show ?thesis by simp
  next
    case False
    note nomatch = this
    have empty: "descendants item = []" if "di_pageItems item = []"
      using that by (cases item) simp
    show ?thesis
    proof (cases "di_pageItems item = []")
      case True
      with nomatch 3(2) show ?thesis
        by (simp add: empty find_map_prefix)
    next
      case False
      with nomatch 3(1) 3(2) show ?thesis
        by (auto simp: find_append find_map_prefix split: option.splits)
    qed
  qed
qed

lemma find_layers:
  "findInLayers layers l t = map_option fst (find (\<lambda>(p, x). isMatch t x) (layerItems layers l))"
  by (induction layers arbitrary: l)
     (auto simp: find_append find_map_prefix find_descendants split: option.splits)

lemma descendants_valid:
  "(p, x) \<in> set (descendants item) \<Longrightarrow> itemIn item p = Some x"
  "(p, x) \<in> set (itemsFrom items k) \<Longrightarrow>
     \<exists>i q. p = (k + i) # q \<and> i < length items \<and> itemIn (items ! i) q = Some x"
proof (induction item and items k arbitrary: p x and p x rule: descendants_itemsFrom.induct)
  case (1 tn nm ct items)
  from 1(1) [of p x] 1(2) obtain i q
    where "p = (0 + i) # q" "i < length items" "itemIn (items ! i) q = Some x"
    by auto
  then show ?case by simp
next
  case (2 k)
  then show ?case by simp
next
  case (3 item rest k)
  from 3(3) consider "(p, x) = ([k], item)"
    | q where "p = k # q" "(q, x) \<in> set (descendants item)"
    | "(p, x) \<in> set (itemsFrom rest (Suc k))"
    by auto
  then show ?case
  proof cases
    case 1
    then have "p = (k + 0) # []" "itemIn ((item # rest) ! 0) [] = Some x" by simp_all
    then show ?thesis by (metis length_greater_0_conv list.distinct(1))
  next
    case 2
    then have "itemIn item q = Some x" using 3(1) by simp
    with 2 have "p = (k + 0) # q" "itemIn ((item # rest) ! 0) q = Some x" by simp_all
    then show ?thesis by (metis length_greater_0_conv list.distinct(1))
  next
    case 3
    then obtain i q where "p = (Suc k + i) # q" "i < length rest"
        "itemIn (rest ! i) q = Some x"
      using "3.IH"(2) by blast
    then have "p = (k + Suc i) # q" "Suc i < length (item # rest)"
        "itemIn ((item # rest) ! Suc i) q = Some x"
      by simp_all
    then show ?thesis by blast
  qed
qed

lemma layerItems_valid:
  "(p, x) \<in> set (layerItems layers l) \<Longrightarrow>
     \<exists>i q. p = (l + i) # q \<and> i < length layers \<and> itemIn (layers ! i) q = Some x"
proof (induction layers arbitrary: l)
  case Nil
  then show ?case by simp
next
  case (Cons layer rest)
  from Cons.prems consider q where "p = l # q" "(q, x) \<in> set (descendants layer)"
    | "(p, x) \<in> set (layerItems rest (Suc l))"
    by auto
  then show ?case
  proof cases
    case 1
    then have "itemIn layer q = Some x" by (simp add: descendants_valid)
    with 1 have "p = (l + 0) # q" "itemIn ((layer # rest) ! 0) q = Some x" by simp_all
    then show ?thesis by (metis length_greater_0_conv list.distinct(1))
  next
    case 2
    then obtain i q where "p = (Suc l + i) # q" "i < length rest"
        "itemIn (rest ! i) q = Some x"
      using Cons.IH by blast
    then have "p = (l + Suc i) # q" "Suc i < length (layer # rest)"
        "itemIn ((layer # rest) ! Suc i) q = Some x"
      by simp_all
    then show ?thesis by blast
  qed
qed

lemma layerItems_itemAt:
  "(p, x) \<in> set (layerItems layers 0) \<Longrightarrow> itemAt layers p = Some x"
  by (auto dest!: layerItems_valid simp: itemAt_def)

lemma find_SomeD: "find P xs = Some y \<Longrightarrow> y \<in> set xs \<and> P y"
  by (auto simp: find_Some_iff)

lemma findInLayers_sound:
  assumes "findInLayers layers 0 t = Some p"
  shows "\<exists>x. itemAt layers p = Some x \<and> isMatch t x"
proof -
  from assms obtain x where "find (\<lambda>(p, x). isMatch t x) (layerItems layers 0) = Some (p, x)"
    by (auto simp: find_layers)
  then have "(p, x) \<in> set (layerItems layers 0)" "isMatch t x"
    by (auto dest: find_SomeD)
  then show ?thesis by (auto simp: layerItems_itemAt)
qed

lemma findTextByContent_sound:
  assumes "findTextByContent item t = Some q"
  shows "\<exists>x. itemIn item q = Some x \<and> isMatch t x"
proof -
  from assms obtain x where "find (\<lambda>(p, x). isMatch t x) (descendants item) = Some (q, x)"
    by (auto simp: find_descendants)
  then have "(q, x) \<in> set (descendants item)" "isMatch t x"
    by (auto dest: find_SomeD)
  then show ?thesis by (auto simp: descendants_valid)
qed

lemma walkPath_valid: "walkPath current parts = Some q \<Longrightarrow> \<exists>x. itemIn current q = Some x"
proof (induction parts arbitrary: current q)
  case Nil
  then show ?case by simp
next
  case (Cons part parts)
  then show ?case
    by (auto split: option.splits if_splits)
qed

lemma findByPath_valid: "findByPath layers s = Some p \<Longrightarrow> \<exists>x. itemAt layers p = Some x"
  by (auto simp: findByPath_def itemAt_def split: if_splits list.splits option.splits
      dest: walkPath_valid)

lemma itemIn_append:
  "itemIn item p = Some y \<Longrightarrow> itemIn y q = Some z \<Longrightarrow> itemIn item (p @ q) = Some z"
  by (induction p arbitrary: item) (auto split: if_splits)

lemma itemAt_append:
  "itemAt layers p = Some y \<Longrightarrow> itemIn y q = Some z \<Longrightarrow> itemAt layers (p @ q) = Some z"
  by (cases p) (auto simp: itemAt_def itemIn_append split: if_splits)

lemma itemIn_updateIn:
  "itemIn item p = Some x \<Longrightarrow> itemIn (updateIn p f item) p = Some (f x)"
proof (induction p arbitrary: item)
  case Nil
  then show ?case by simp
next
  case (Cons i p)
  then show ?case by (cases item) (auto split: if_splits)
qed

lemma itemAt_updateAt:
  "itemAt layers p = Some x \<Longrightarrow> itemAt (updateAt p f layers) p = Some (f x)"
  by (cases p) (auto simp: itemAt_def updateAt_def itemIn_updateIn split: if_splits)

subsection \<open>Resolution and replacement of one entry\<close>

lemma contentStage_first_match:
  "contentStage layers rep =
     (if currentValue rep = [] then None
      else map_option fst
             (find (\<lambda>(p, x). isMatch (currentValue rep) x) (layerItems layers 0)))"
  by (simp add: contentStage_def find_layers)

lemma resolveTarget_valid:
  assumes "fst (resolveTarget layers rep) = Some p"
  shows "\<exists>item. itemAt layers p = Some item"
proof (cases "contentStage layers rep")
  case (Some q)
  with assms have "q = p" by (simp add: resolveTarget_def)
  with Some have "findInLayers layers 0 (currentValue rep) = Some p"
    by (simp add: contentStage_def split: if_splits)
  then show ?thesis using findInLayers_sound by blast
next
  case None
  with assms have ps: "fst (pathStage layers rep) = Some p"
    by (simp add: resolveTarget_def)
  then obtain p0 where p0: "findByPath layers (elementPath rep) = Some p0"
    by (auto simp: pathStage_def split: if_splits option.splits)
  then obtain item0 where item0: "itemAt layers p0 = Some item0"
    using findByPath_valid by blast
  show ?thesis
  proof (cases "di_typename item0 \<noteq> js ''TextFrame'' \<and> currentValue rep \<noteq> []")
    case True
    with ps p0 item0 obtain q where q: "findTextByContent item0 (currentValue rep) = Some q"
      and p: "p = p0 @ q"
      by (auto simp: pathStage_def split: if_splits option.splits)
    from q obtain z where "itemIn item0 q = Some z"
      using findTextByContent_sound by blast
    with item0 p show ?thesis by (auto simp: itemAt_append)
  next
    case False
    with ps p0 item0 have "p = p0"
      by (auto simp: pathStage_def split: if_splits option.splits)
    with item0 show ?thesis by simp
  qed
qed

lemma resolveTarget_None_flag:
  "fst (resolveTarget layers rep) = None \<Longrightarrow> resolveTarget layers rep = (None, False)"
  by (auto simp: resolveTarget_def pathStage_def split: option.splits if_splits)

lemma processReplacement_unresolved:
  assumes "fst (resolveTarget (rs_layers st) rep) = None"
  shows "processReplacement replaceImage i rep st =
     st\<lparr>rs_debug := rs_debug st @
        [js ''Rep '' @ dec i @ js '': varKey='' @ varKey rep @
           js '', currentValue='' @ take 20 (currentValue rep),
         js ''Rep '' @ dec i @ js '': found item='' @ js ''null'']\<rparr>"
  using resolveTarget_None_flag [OF assms]
  by (simp add: processReplacement_def debugLog_def Let_def)

lemma processReplacement_text:
  assumes "fst (resolveTarget (rs_layers st) rep) = Some p"
    and "itemAt (rs_layers st) p = Some item" and "di_typename item = js ''TextFrame''"
  shows "rs_layers (processReplacement replaceImage i rep st) =
      updateAt p (setContents (chosenValue rep)) (rs_layers st)"
    and "rs_log (processReplacement replaceImage i rep st) =
      rs_log st @ [\<lparr>le_action = js ''replaceText'', le_elementId = di_name item,
                    le_newValue = chosenValue rep\<rparr>]"
proof -
  obtain m where r: "resolveTarget (rs_layers st) rep = (Some p, m)"
    using assms(1) by (cases "resolveTarget (rs_layers st) rep") simp
  show "rs_layers (processReplacement replaceImage i rep st) =
      updateAt p (setContents (chosenValue rep)) (rs_layers st)"
    using r assms(2,3)
    by (simp add: processReplacement_def debugLog_def replaceText_def Let_def)
  show "rs_log (processReplacement replaceImage i rep st) =
      rs_log st @ [\<lparr>le_action = js ''replaceText'', le_elementId = di_name item,
                    le_newValue = chosenValue rep\<rparr>]"
    using r assms(2,3)
    by (simp add: processReplacement_def debugLog_def replaceText_def Let_def)
qed

lemma runFromConfig_value:
  "fst (runFromConfig replaceImage configPath (Parsed cfg) True layers) =
     \<lparr>rr_success = True, rr_error = None, rr_files = Some (exportedFiles cfg)\<rparr>"
  by (simp add: runFromConfig_def Let_def)

subsection \<open>The example document\<close>

lemma resolve_exampleRep: "resolveTarget exampleDoc exampleRep = (Some [0, 0, 1], True)"
  by (simp add: resolveTarget_def contentStage_def exampleDoc_def exampleRep_def isMatch_def
      cleanContent_def js_def)

lemma parseInt10_examples: "parseInt10 (js ''0'') = Some 0" "parseInt10 (js ''5'') = Some 5"
  by (simp_all add: parseInt10_def js_def isSpace_def inClass_def spaceRanges_def isDigit_def
      undec_def Let_def)

lemma stages_exampleRepLost:
  "contentStage exampleDoc exampleRepLost = None"
  "pathStage exampleDoc exampleRepLost = (None, False)"
proof -
  show "contentStage exampleDoc exampleRepLost = None"
    by (simp add: contentStage_def exampleDoc_def exampleRepLost_def isMatch_def
        cleanContent_def js_def)
  have "splitOn 47 (js ''0/5'') = [js ''0'', js ''5'']"
    by (simp add: js_def)
  then have "findByPath exampleDoc (elementPath exampleRepLost) = None"
    by (simp add: findByPath_def exampleRepLost_def parseInt10_examples)
       (simp add: exampleDoc_def js_def)
  then show "pathStage exampleDoc exampleRepLost = (None, False)"
    by (simp add: pathStage_def)
qed

lemma resolve_exampleRepLost: "resolveTarget exampleDoc exampleRepLost = (None, False)"
  by (simp add: resolveTarget_def stages_exampleRepLost)

lemma itemAt_example:
  "itemAt exampleDoc [0, 0, 1] =
     Some (DocItem (js ''TextFrame'') (js ''guest name'') [0x5F20, 0x4E09] [])"
  by (simp add: itemAt_def exampleDoc_def)

text \<open>
  The run on the entry that the content match resolves: the text frame is rewritten
  and the replacer log gets one \<open>replaceText\<close> entry, under the name of the element.
\<close>

lemma run_exampleRep:
  "runFromConfig noImages (js ''/tmp/out/config_0.json'')
     (Parsed (exampleConfig [exampleRep])) True exampleDoc =
     (\<lparr>rr_success = True, rr_error = None,
       rr_files = Some [js ''/tmp/out/output_001.ai'']\<rparr>,
      \<lparr>rs_layers =
         [DocItem (js ''Layer'') (js ''Layer 1'') []
            [DocItem (js ''GroupItem'') (js ''card'') []
               [DocItem (js ''PathItem'') (js ''bg'') [] [],
                DocItem (js ''TextFrame'') (js ''guest name'') (js ''Alice'') []],
             DocItem (js ''TextFrame'') (js ''title'') (js ''CEO'') []]],
       rs_log =
         [\<lparr>le_action = js ''replaceText'', le_elementId = js ''guest name'',
           le_newValue = js ''Alice''\<rparr>],
       rs_debug =
         [js ''Processing 1 replacements'',
          js ''Rep 0: varKey=guest_0.name, currentValue='' @ [0x5F20, 0x4E09],
          js ''findTextByContent: MATCH found, content='' @ [0x5F20, 0x4E09],
          js ''Rep 0: found item=TextFrame'',
          js ''Replacing text: '' @ [0x5F20, 0x4E09] @ js '' -> Alice'']\<rparr>)"
proof -
  have d: "dec 0 = js ''0''" "dec (Suc 0) = js ''1''"
    by (simp_all add: dec.simps digitChar_def js_def)
  have files: "exportedFiles (exampleConfig [exampleRep]) = [js ''/tmp/out/output_001.ai'']"
    by (simp add: exportedFiles_def exportedFile_def exampleConfig_def toLowerCase_def js_def)
  have reps: "replacements (exampleConfig [exampleRep]) = [exampleRep]"
    by (simp add: exampleConfig_def)
  have it: "itemAt exampleDoc [0, 0, Suc 0] =
     Some (DocItem (js ''TextFrame'') (js ''guest name'') [0x5F20, 0x4E09] [])"
    using itemAt_example by simp
  have up: "updateAt [0, 0, Suc 0] (setContents (js ''Alice'')) exampleDoc =
         [DocItem (js ''Layer'') (js ''Layer 1'') []
            [DocItem (js ''GroupItem'') (js ''card'') []
               [DocItem (js ''PathItem'') (js ''bg'') [] [],
                DocItem (js ''TextFrame'') (js ''guest name'') (js ''Alice'') []],
             DocItem (js ''TextFrame'') (js ''title'') (js ''CEO'') []]]"
    by (simp add: updateAt_def exampleDoc_def setContents_def)
  have cv: "chosenValue exampleRep = js ''Alice''"
    by (simp add: chosenValue_def exampleRep_def js_def)
  have step: "processReplacement noImages 0 exampleRep
      \<lparr>rs_layers = exampleDoc, rs_log = [], rs_debug = [js ''Processing 1 replacements'']\<rparr> =
      \<lparr>rs_layers = updateAt [0, 0, Suc 0] (setContents (js ''Alice'')) exampleDoc,
       rs_log =
         [\<lparr>le_action = js ''replaceText'', le_elementId = js ''guest name'',
           le_newValue = js ''Alice''\<rparr>],
       rs_debug =
         [js ''Processing 1 replacements'',
          js ''Rep 0: varKey=guest_0.name, currentValue='' @ [0x5F20, 0x4E09],
          js ''findTextByContent: MATCH found, content='' @ [0x5F20, 0x4E09],
          js ''Rep 0: found item=TextFrame'',
          js ''Replacing text: '' @ [0x5F20, 0x4E09] @ js '' -> Alice'']\<rparr>"
    by (simp add: processReplacement_def Let_def resolve_exampleRep it cv debugLog_def
        replaceText_def d)
       (simp add: exampleRep_def cleanContent_def js_def)
  have "runFromConfig noImages (js ''/tmp/out/config_0.json'')
     (Parsed (exampleConfig [exampleRep])) True exampleDoc =
     (\<lparr>rr_success = True, rr_error = None,
       rr_files = Some (exportedFiles (exampleConfig [exampleRep]))\<rparr>,
      processReplacement noImages 0 exampleRep
      \<lparr>rs_layers = exampleDoc, rs_log = [], rs_debug = [js ''Processing 1 replacements'']\<rparr>)"
    by (simp add: runFromConfig_def Let_def reps debugLog_def d js_def)
  then show ?thesis
    unfolding step files up by simp
qed

text \<open>
  The run on the entry of path \<open>0/5\<close> and current value \<open>"U+674E U+56DB"\<close>, which
  neither stage resolves.
\<close>

lemma run_exampleRepLost:
  "runFromConfig noImages (js ''/tmp/out/config_0.json'')
     (Parsed (exampleConfig [exampleRepLost])) True exampleDoc =
     (\<lparr>rr_success = True, rr_error = None,
       rr_files = Some [js ''/tmp/out/output_001.ai'']\<rparr>,
      \<lparr>rs_layers = exampleDoc, rs_log = [],
       rs_debug =
         [js ''Processing 1 replacements'',
          js ''Rep 0: varKey=guest_0.name, currentValue='' @ [0x674E, 0x56DB],
          js ''Rep 0: found item=null'']\<rparr>)"
proof -
  let ?st = "\<lparr>rs_layers = exampleDoc, rs_log = [],
     rs_debug = [js ''Processing '' @ dec 1 @ js '' replacements'']\<rparr>"
  have r: "fst (resolveTarget (rs_layers ?st) exampleRepLost) = None"
    by (simp add: resolve_exampleRepLost)
  have files: "exportedFiles (exampleConfig [exampleRepLost]) = [js ''/tmp/out/output_001.ai'']"
    by (simp add: exportedFiles_def exportedFile_def exampleConfig_def toLowerCase_def js_def)
  have d: "dec 0 = js ''0''" "dec (Suc 0) = js ''1''"
    by (simp_all add: dec.simps digitChar_def js_def)
  have reps: "replacements (exampleConfig [exampleRepLost]) = [exampleRepLost]"
    by (simp add: exampleConfig_def)
  have lines:
    "js ''Rep '' @ dec 0 @ js '': varKey='' @ varKey exampleRepLost @
       js '', currentValue='' @ take 20 (currentValue exampleRepLost) =
     js ''Rep 0: varKey=guest_0.name, currentValue='' @ [0x674E, 0x56DB]"
    "js ''Rep '' @ dec 0 @ js '': found item='' @ js ''null'' = js ''Rep 0: found item=null''"
    "js ''Processing '' @ dec 1 @ js '' replacements'' = js ''Processing 1 replacements''"
    by (simp_all add: d exampleRepLost_def js_def)
  have "processReplacement noImages 0 exampleRepLost ?st =
      ?st\<lparr>rs_debug := rs_debug ?st @
        [js ''Rep '' @ dec 0 @ js '': varKey='' @ varKey exampleRepLost @
           js '', currentValue='' @ take 20 (currentValue exampleRepLost),
         js ''Rep '' @ dec 0 @ js '': found item='' @ js ''null'']\<rparr>"
    using r by (rule processReplacement_unresolved)
  then have step: "processReplacement noImages 0 exampleRepLost
      \<lparr>rs_layers = exampleDoc, rs_log = [], rs_debug = [js ''Processing 1 replacements'']\<rparr> =
      \<lparr>rs_layers = exampleDoc, rs_log = [],
       rs_debug =
         [js ''Processing 1 replacements'',
          js ''Rep 0: varKey=guest_0.name, currentValue='' @ [0x674E, 0x56DB],
          js ''Rep 0: found item=null'']\<rparr>"
    unfolding lines by simp
  have "runFromConfig noImages (js ''/tmp/out/config_0.json'')
     (Parsed (exampleConfig [exampleRepLost])) True exampleDoc =
     (\<lparr>rr_success = True, rr_error = None,
       rr_files = Some (exportedFiles (exampleConfig [exampleRepLost]))\<rparr>,
      processReplacement noImages 0 exampleRepLost
      \<lparr>rs_layers = exampleDoc, rs_log = [], rs_debug = [js ''Processing 1 replacements'']\<rparr>)"
    by (simp add: runFromConfig_def Let_def reps debugLog_def d js_def)
  then show ?thesis
    unfolding step files by (simp add: resolve_exampleRepLost)
qed

text \<open>
  \<^bold>\<open>C5.\<close> A replacement entry that neither the content match nor the path
  fallback resolves is to be recorded as failed with the reason \<open>not found\<close>, and a
  resolved one as a success with its field name and new value, as \<open>execute\<close> does
  with the result of \<open>replaceField\<close>. \<open>runFromConfig\<close> keeps no such record and
  drops what \<open>replaceText\<close> and \<open>replaceImage\<close> return. On the example document the
  entry of path \<open>0/5\<close> and current value \<open>"U+674E U+56DB"\<close> is resolved by neither
  stage: the document and the replacer log are left as they were, the only trace is
  the debug line \<open>Rep 0: found item=null\<close>, and the run returns \<open>success: true\<close> with
  the exported file, the very value it returns for the entry that is resolved.
\<close>

theorem runFromConfig_unresolved_entry_unrecorded:
  "contentStage exampleDoc exampleRepLost = None \<and>
   pathStage exampleDoc exampleRepLost = (None, False) \<and>
   resolveTarget exampleDoc exampleRepLost = (None, False) \<and>
   runFromConfig noImages (js ''/tmp/out/config_0.json'')
     (Parsed (exampleConfig [exampleRepLost])) True exampleDoc =
     (\<lparr>rr_success = True, rr_error = None,
       rr_files = Some [js ''/tmp/out/output_001.ai'']\<rparr>,
      \<lparr>rs_layers = exampleDoc, rs_log = [],
       rs_debug =
         [js ''Processing 1 replacements'',
          js ''Rep 0: varKey=guest_0.name, currentValue='' @ [0x674E, 0x56DB],
          js ''Rep 0: found item=null'']\<rparr>) \<and>
   fst (runFromConfig noImages (js ''/tmp/out/config_0.json'')
     (Parsed (exampleConfig [exampleRep])) True exampleDoc) =
   fst (runFromConfig noImages (js ''/tmp/out/config_0.json'')
     (Parsed (exampleConfig [exampleRepLost])) True exampleDoc)"
  by (simp only: stages_exampleRepLost resolve_exampleRepLost run_exampleRepLost
      run_exampleRep fst_conv simp_thms)

end
